theory Spec2Isabelle
  imports Main "HOL-Library.AList" "HOL-Library.Word"
begin

unbundle bit_operations_syntax

section \<open>Shared gRPC types\<close>

text \<open>The gRPC status codes used by the services (\<open>status\<close> of grpc-js).\<close>

datatype StatusCode = CANCELLED | INVALID_ARGUMENT | OUT_OF_RANGE | INTERNAL | UNAVAILABLE

text \<open>\<open>AnyType\<close> of \<open>common/grpc-package.ts\<close>: a type URL and a \<open>Uint8Array\<close>.\<close>

record AnyType =
  type_url :: string
  any_value :: "8 word list"

section \<open>Payload codec (\<open>controller/tn-base-controller.ts\<close>,
  \<open>controller/tn-communication-controller.ts\<close>)\<close>

text \<open>
  Modelled from the spec: the Base64 encoding of Node's \<open>Buffer\<close>, which is not part of
  the repository. \<open>Buffer.toString("base64")\<close> writes the standard alphabet of RFC 4648
  with \<open>=\<close> padding; \<open>Buffer.from(s, "base64")\<close> also accepts the URL-safe characters,
  skips every other character and stops at the first \<open>=\<close>.
\<close>

definition base64Chars :: string where
  "base64Chars = ''ABCDEFGHIJKLMNOPQRSTUVWXYZabcdefghijklmnopqrstuvwxyz0123456789+/''"

definition encodeSextet :: "8 word \<Rightarrow> char" where
  "encodeSextet w = base64Chars ! unat w"

definition sextet1 :: "8 word \<Rightarrow> 8 word" where
  "sextet1 a = drop_bit 2 a"

definition sextet2 :: "8 word \<Rightarrow> 8 word \<Rightarrow> 8 word" where
  "sextet2 a b = push_bit 4 (a AND 0x03) OR drop_bit 4 b"

definition sextet3 :: "8 word \<Rightarrow> 8 word \<Rightarrow> 8 word" where
  "sextet3 b c = push_bit 2 (b AND 0x0F) OR drop_bit 6 c"

definition sextet4 :: "8 word \<Rightarrow> 8 word" where
  "sextet4 c = c AND 0x3F"

fun base64Encode :: "8 word list \<Rightarrow> string" where
  "base64Encode (a # b # c # rest) =
     [encodeSextet (sextet1 a), encodeSextet (sextet2 a b),
      encodeSextet (sextet3 b c), encodeSextet (sextet4 c)] @ base64Encode rest"
| "base64Encode [a, b] =
     [encodeSextet (sextet1 a), encodeSextet (sextet2 a b),
      encodeSextet (sextet3 b 0), CHR ''='']"
| "base64Encode [a] =
     [encodeSextet (sextet1 a), encodeSextet (sextet2 a 0), CHR ''='', CHR ''='']"
| "base64Encode [] = []"

fun indexOf :: "'a \<Rightarrow> 'a list \<Rightarrow> nat option" where
  "indexOf x [] = None"
| "indexOf x (y # ys) = (if x = y then Some 0 else map_option Suc (indexOf x ys))"

definition unbase64 :: "char \<Rightarrow> 8 word option" where
  "unbase64 c =
     (if c = CHR ''-'' then Some 62
      else if c = CHR ''_'' then Some 63
      else map_option of_nat (indexOf c base64Chars))"

fun decodeSextets :: "string \<Rightarrow> 8 word list" where
  "decodeSextets [] = []"
| "decodeSextets (c # cs) =
     (case unbase64 c of
        Some v \<Rightarrow> v # decodeSextets cs
      | None \<Rightarrow> if c = CHR ''='' then [] else decodeSextets cs)"

definition byte1 :: "8 word \<Rightarrow> 8 word \<Rightarrow> 8 word" where
  "byte1 hi lo = push_bit 2 (hi AND 0x3F) OR drop_bit 4 (lo AND 0x30)"

definition byte2 :: "8 word \<Rightarrow> 8 word \<Rightarrow> 8 word" where
  "byte2 hi lo = push_bit 4 (hi AND 0x0F) OR drop_bit 2 (lo AND 0x3C)"

definition byte3 :: "8 word \<Rightarrow> 8 word \<Rightarrow> 8 word" where
  "byte3 hi lo = push_bit 6 (hi AND 0x03) OR (lo AND 0x3F)"

fun decodeGroups :: "8 word list \<Rightarrow> 8 word list" where
  "decodeGroups (s1 # s2 # s3 # s4 # rest) =
     [byte1 s1 s2, byte2 s2 s3, byte3 s3 s4] @ decodeGroups rest"
| "decodeGroups [s1, s2, s3] = [byte1 s1 s2, byte2 s2 s3]"
| "decodeGroups [s1, s2] = [byte1 s1 s2]"
| "decodeGroups [s1] = []"
| "decodeGroups [] = []"

definition base64Decode :: "string \<Rightarrow> 8 word list" where
  "base64Decode s = decodeGroups (decodeSextets s)"

text \<open>The two conversions of \<open>TnBaseController\<close>.\<close>

definition byteArrayToBase64 :: "8 word list \<Rightarrow> string" where
  "byteArrayToBase64 v = base64Encode v"

definition base64ToByteArray :: "string \<Rightarrow> 8 word list" where
  "base64ToByteArray v = base64Decode v"

text \<open>
  The gRPC channel event and the Coaty object that carries it on the bus. The property
  \<open>value\<close> of the Coaty object is the field \<open>objectValue\<close>; an absent \<open>sourceId\<close> is
  \<open>None\<close>.
\<close>

record PbChannelEvent =
  channelId :: string
  channelData :: AnyType
  channelSourceId :: "string option"

record CoatyObject =
  objectName :: string
  objectId :: string
  coreType :: string
  objectType :: string
  objectValue :: string
  objectSourceId :: "string option"

text \<open>
  \<open>publishChannel\<close>: the channel identifier and the object of the Coaty Channel event
  handed to the communication manager; \<open>uuid\<close> is the value of \<open>runtime.newUuid()\<close>.
\<close>

definition publishChannel :: "string \<Rightarrow> PbChannelEvent \<Rightarrow> string \<times> CoatyObject" where
  "publishChannel uuid event =
     (channelId event,
      \<lparr>objectName = ''Auto-created from Protobuf Any'',
       objectId = uuid,
       coreType = ''CoatyObject'',
       objectType = type_url (channelData event),
       objectValue = byteArrayToBase64 (any_value (channelData event)),
       objectSourceId = channelSourceId event\<rparr>)"

text \<open>The \<open>map\<close> of \<open>observeChannel\<close>, applied to an incoming Coaty Channel event.\<close>

definition observeChannelEvent :: "string \<times> CoatyObject \<Rightarrow> PbChannelEvent" where
  "observeChannelEvent evt =
     \<lparr>channelId = fst evt,
      channelData = \<lparr>type_url = objectType (snd evt),
                     any_value = base64ToByteArray (objectValue (snd evt))\<rparr>,
      channelSourceId = objectSourceId (snd evt)\<rparr>"

section \<open>Routing service (\<open>service/routing-service.ts\<close>)\<close>

datatype RoutingPolicy = Single | First | Last | Next | Random

text \<open>
  A registration call is a server stream whose request is a \<open>PushRoute\<close> or a
  \<open>RequestRoute\<close>. Object identity (\<open>===\<close>) is equality of the record; the policy of
  a push route is not read by the service (Protobuf defaults it to \<open>Single\<close>).
\<close>

record RegistrationCall =
  callId :: nat
  route :: string
  routingPolicy :: RoutingPolicy

record RouteEventAck =
  routingCount :: nat

record PushEvent =
  pushRoute :: string
  pushData :: "AnyType option"

record RequestEvent =
  reqRoute :: string
  reqRequestId :: "nat option"
  reqData :: "AnyType option"

record ResponseEvent =
  resRoute :: string
  resRequestId :: "nat option"
  resData :: "AnyType option"
  resError :: "string option"

text \<open>
  A unary request call. Its \<open>cancelled\<close> property is set by the gRPC runtime and is
  kept in the field \<open>cancelled\<close> of the service state below, as the set of the ids of
  the request calls that are cancelled or whose deadline is exceeded. The callback of a
  request call is identified with the call.
\<close>

record RequestCall =
  requestCallId :: nat
  request :: RequestEvent

type_synonym RequestCallItem = "RequestCall \<times> RegistrationCall option"

text \<open>
  The selector closure of a group is determined by the policy it was created with and
  by its captured variable \<open>currentCallIndex\<close>, which is a field here.
\<close>

record RegistrationCallTwoWayItems =
  calls :: "RegistrationCall list"
  requestId :: nat
  policy :: RoutingPolicy
  currentCallIndex :: nat

text \<open>
  The inner map of \<open>_requestCalls\<close> is iterated by \<open>_cancelRequestCalls\<close>, so it is an
  association list in insertion order (\<open>AList.update\<close> keeps the position of an existing
  key and appends a new one, as \<open>Map.set\<close> does).
\<close>

record RoutingService =
  registrationCallsOneWay :: "string \<rightharpoonup> RegistrationCall list"
  registrationCallsTwoWay :: "string \<rightharpoonup> RegistrationCallTwoWayItems"
  requestCalls :: "string \<rightharpoonup> (nat \<times> RequestCallItem) list"
  cancelled :: "nat set"

definition newRoutingService :: RoutingService where
  "newRoutingService =
     \<lparr>registrationCallsOneWay = Map.empty, registrationCallsTwoWay = Map.empty,
      requestCalls = Map.empty, cancelled = {}\<rparr>"

text \<open>What a handler does to the outside: stream writes, unary replies of request calls
  and errors emitted on a registration stream.\<close>

datatype Effect =
    WritePush RegistrationCall PushEvent
  | WriteRequest RegistrationCall RequestEvent
  | RequestCallback RequestCall "StatusCode \<times> string + ResponseEvent"
  | EmitError RegistrationCall StatusCode string

datatype JsError = TypeError

text \<open>Reading a JavaScript array at an index: \<open>undefined\<close> out of range.\<close>

definition jsIndex :: "'a list \<Rightarrow> int \<Rightarrow> 'a option" where
  "jsIndex xs i = (if 0 \<le> i \<and> i < int (length xs) then Some (xs ! nat i) else None)"

text \<open>\<open>Array.prototype.findIndex\<close>, with \<open>None\<close> for \<open>-1\<close>.\<close>

fun findIndex :: "('a \<Rightarrow> bool) \<Rightarrow> 'a list \<Rightarrow> nat option" where
  "findIndex P [] = None"
| "findIndex P (x # xs) =
     (if P x then Some 0 else (case findIndex P xs of None \<Rightarrow> None | Some i \<Rightarrow> Some (Suc i)))"

text \<open>\<open>xs.splice(i, 1)\<close>.\<close>

definition splice1 :: "nat \<Rightarrow> 'a list \<Rightarrow> 'a list" where
  "splice1 i xs = take i xs @ drop (Suc i) xs"

definition nextRequestId :: "nat \<Rightarrow> nat" where
  "nextRequestId rid = (if rid < 0xFFFFFFFF then rid + 1 else 1)"

text \<open>
  \<open>_routingPolicySelector\<close>: the registration picked from \<open>calls\<close> and the new value of
  \<open>currentCallIndex\<close>. The argument \<open>rnd\<close> stands for the value of
  \<open>Math.floor(Math.random() * calls.length)\<close>, drawn by the environment.
\<close>

fun routingPolicySelector ::
  "RoutingPolicy \<Rightarrow> nat \<Rightarrow> nat \<Rightarrow> RegistrationCall list \<Rightarrow> RegistrationCall option \<times> nat" where
  "routingPolicySelector Single cur rnd cs = (jsIndex cs 0, cur)"
| "routingPolicySelector First cur rnd cs = (jsIndex cs 0, cur)"
| "routingPolicySelector Last cur rnd cs = (jsIndex cs (int (length cs) - 1), cur)"
| "routingPolicySelector Random cur rnd cs = (jsIndex cs (int rnd), cur)"
| "routingPolicySelector Next cur rnd cs =
     (jsIndex cs (int cur), if int cur < int (length cs) - 1 then cur + 1 else 0)"

definition addRequestCall ::
  "RoutingService \<Rightarrow> string \<Rightarrow> nat \<Rightarrow> RequestCallItem \<Rightarrow> RoutingService" where
  "addRequestCall s r rid item =
     (let requestItems = (case requestCalls s r of None \<Rightarrow> [] | Some its \<Rightarrow> its)
      in s\<lparr>requestCalls := (requestCalls s)(r \<mapsto> AList.update rid item requestItems)\<rparr>)"

definition removeRequestCall ::
  "RoutingService \<Rightarrow> string \<Rightarrow> nat option \<Rightarrow> RoutingService \<times> RequestCallItem option" where
  "removeRequestCall s r rid =
     (case requestCalls s r of
        None \<Rightarrow> (s, None)
      | Some its \<Rightarrow>
          (let item = (case rid of None \<Rightarrow> None | Some k \<Rightarrow> map_of its k);
               its' = (case rid of None \<Rightarrow> its | Some k \<Rightarrow> AList.delete k its)
           in (if length its' = 0
               then s\<lparr>requestCalls := (requestCalls s)(r := None)\<rparr>
               else s\<lparr>requestCalls := (requestCalls s)(r \<mapsto> its')\<rparr>, item)))"

text \<open>
  The body of the loop of \<open>_cancelRequestCalls\<close>, over the entries still to visit.
  Deleting the current entry of a \<open>Map\<close> during its iteration is allowed and the
  remaining entries are visited in insertion order.
\<close>

fun cancelLoop ::
  "RegistrationCall \<Rightarrow> (nat \<times> RequestCallItem) list \<Rightarrow> RoutingService
     \<Rightarrow> RoutingService \<times> Effect list" where
  "cancelLoop c [] s = (s, [])"
| "cancelLoop c ((rid, (requestCall, registrationCall)) # rest) s =
     (if registrationCall = Some c then
        (let its' = AList.delete rid (case requestCalls s (route c) of None \<Rightarrow> [] | Some its \<Rightarrow> its);
             s1 = (if length its' = 0
                   then s\<lparr>requestCalls := (requestCalls s)(route c := None)\<rparr>
                   else s\<lparr>requestCalls := (requestCalls s)(route c \<mapsto> its')\<rparr>);
             e = (if requestCallId requestCall \<notin> cancelled s
                  then [RequestCallback requestCall
                          (Inl (CANCELLED, ''Correlated registration deregistered before response''))]
                  else []);
             (s2, es) = cancelLoop c rest s1
         in (s2, e @ es))
      else cancelLoop c rest s)"

definition cancelRequestCalls :: "RoutingService \<Rightarrow> RegistrationCall \<Rightarrow> RoutingService \<times> Effect list" where
  "cancelRequestCalls s c =
     (case requestCalls s (route c) of
        None \<Rightarrow> (s, [])
      | Some its \<Rightarrow> cancelLoop c its s)"

definition registerCall ::
  "RoutingService \<Rightarrow> RegistrationCall \<Rightarrow> bool \<Rightarrow> RoutingService \<times> string option" where
  "registerCall s c isTwoWayRoute =
     (if isTwoWayRoute then
        (let (items, s1) =
               (case registrationCallsTwoWay s (route c) of
                  None \<Rightarrow>
                    (let items = \<lparr>calls = [], requestId = 0, policy = routingPolicy c,
                                  currentCallIndex = 0\<rparr>
                     in (items, s\<lparr>registrationCallsTwoWay :=
                                    (registrationCallsTwoWay s)(route c \<mapsto> items)\<rparr>))
                | Some items \<Rightarrow> (items, s))
         in if policy items = Single \<and> length (calls items) > 0 then
              (s1, Some (''Registration error on two-way route '' @ route c @
                         '': additional registrations not allowed with default policy''))
            else if policy items \<noteq> Single \<and> policy items \<noteq> routingPolicy c then
              (s1, Some (''Registration error on two-way route '' @ route c @
                         '': additional registration with different policy not accepted''))
            else
              (s1\<lparr>registrationCallsTwoWay :=
                    (registrationCallsTwoWay s1)(route c \<mapsto> items\<lparr>calls := calls items @ [c]\<rparr>)\<rparr>,
               None))
      else
        (let cs = (case registrationCallsOneWay s (route c) of None \<Rightarrow> [] | Some cs \<Rightarrow> cs)
         in (s\<lparr>registrationCallsOneWay := (registrationCallsOneWay s)(route c \<mapsto> cs @ [c])\<rparr>,
             None)))"

definition deregisterCall ::
  "RoutingService \<Rightarrow> RegistrationCall \<Rightarrow> bool \<Rightarrow> RoutingService \<times> Effect list" where
  "deregisterCall s c isTwoWayRoute =
     (if isTwoWayRoute then
        (case registrationCallsTwoWay s (route c) of
           None \<Rightarrow> (s, [])
         | Some items \<Rightarrow>
             (case findIndex (\<lambda>item. item = c) (calls items) of
                None \<Rightarrow> (s, [])
              | Some i \<Rightarrow>
                  (let cs = splice1 i (calls items);
                       s1 = (if length cs = 0
                             then s\<lparr>registrationCallsTwoWay :=
                                      (registrationCallsTwoWay s)(route c := None)\<rparr>
                             else s\<lparr>registrationCallsTwoWay :=
                                      (registrationCallsTwoWay s)(route c \<mapsto> items\<lparr>calls := cs\<rparr>)\<rparr>)
                   in cancelRequestCalls s1 c)))
      else
        (let items = (case registrationCallsOneWay s (route c) of None \<Rightarrow> [] | Some cs \<Rightarrow> cs)
         in case findIndex (\<lambda>item. item = c) items of
              None \<Rightarrow> (s, [])
            | Some i \<Rightarrow>
                (let cs = splice1 i items
                 in (if length cs = 0
                     then s\<lparr>registrationCallsOneWay := (registrationCallsOneWay s)(route c := None)\<rparr>
                     else s\<lparr>registrationCallsOneWay := (registrationCallsOneWay s)(route c \<mapsto> cs)\<rparr>,
                     []))))"

text \<open>\<open>_handleRegister\<close>: a registration error is emitted on the stream as
  \<open>INVALID_ARGUMENT\<close>.\<close>

definition handleRegister ::
  "RoutingService \<Rightarrow> RegistrationCall \<Rightarrow> bool \<Rightarrow> RoutingService \<times> Effect list" where
  "handleRegister s c isTwoWayRoute =
     (case registerCall s c isTwoWayRoute of
        (s', Some msg) \<Rightarrow> (s', [EmitError c INVALID_ARGUMENT msg])
      | (s', None) \<Rightarrow> (s', []))"

definition handlePush ::
  "RoutingService \<Rightarrow> PushEvent \<Rightarrow> Effect list \<times> RouteEventAck" where
  "handlePush s pushEvent =
     (case registrationCallsOneWay s (pushRoute pushEvent) of
        Some items \<Rightarrow> (map (\<lambda>item. WritePush item pushEvent) items,
                       \<lparr>routingCount = length items\<rparr>)
      | None \<Rightarrow> ([], \<lparr>routingCount = 0\<rparr>))"

text \<open>
  \<open>_handleRequest\<close>. When the selector returns \<open>undefined\<close>, the pending request has
  been recorded before \<open>registrationCall.write\<close> throws a \<open>TypeError\<close>.
\<close>

definition handleRequest ::
  "RoutingService \<Rightarrow> RequestCall \<Rightarrow> nat \<Rightarrow> RoutingService \<times> (JsError + Effect list)" where
  "handleRequest s call rnd =
     (let requestEvent = request call in
      case registrationCallsTwoWay s (reqRoute requestEvent) of
        Some items \<Rightarrow>
          (let (registrationCall, idx) =
                 routingPolicySelector (policy items) (currentCallIndex items) rnd (calls items);
               rid = nextRequestId (requestId items);
               s1 = s\<lparr>registrationCallsTwoWay := (registrationCallsTwoWay s)
                       (reqRoute requestEvent \<mapsto> items\<lparr>requestId := rid, currentCallIndex := idx\<rparr>)\<rparr>;
               s2 = addRequestCall s1 (reqRoute requestEvent) rid (call, registrationCall)
           in case registrationCall of
                Some rc \<Rightarrow> (s2, Inr [WriteRequest rc (requestEvent\<lparr>reqRequestId := Some rid\<rparr>)])
              | None \<Rightarrow> (s2, Inl TypeError))
      | None \<Rightarrow>
          (s, Inr [RequestCallback call
                     (Inl (UNAVAILABLE, ''No registration available for request event''))]))"

definition handleResponse ::
  "RoutingService \<Rightarrow> ResponseEvent
     \<Rightarrow> RoutingService \<times> Effect list \<times> (StatusCode \<times> string + RouteEventAck)" where
  "handleResponse s response =
     (case removeRequestCall s (resRoute response) (resRequestId response) of
        (s', None) \<Rightarrow>
          (s', [], Inl (INVALID_ARGUMENT,
                        ''Response event discarded as no correlated registration exits''))
      | (s', Some (requestCall, registrationCall)) \<Rightarrow>
          (if requestCallId requestCall \<in> cancelled s
           then (s', [], Inr \<lparr>routingCount = 0\<rparr>)
           else (s', [RequestCallback requestCall (Inr (response\<lparr>resRequestId := None\<rparr>))],
                 Inr \<lparr>routingCount = 1\<rparr>)))"

text \<open>The calls the service receives, and the cancellation of a request call by its
  client or by its deadline.\<close>

datatype Op =
    OpRegister RegistrationCall bool
  | OpDeregister RegistrationCall bool
  | OpPush PushEvent
  | OpRequest RequestCall nat
  | OpRespond ResponseEvent
  | OpCancelRequest nat

fun step :: "RoutingService \<Rightarrow> Op \<Rightarrow> RoutingService" where
  "step s (OpRegister c tw) = fst (handleRegister s c tw)"
| "step s (OpDeregister c tw) = fst (deregisterCall s c tw)"
| "step s (OpPush e) = s"
| "step s (OpRequest rc rnd) = fst (handleRequest s rc rnd)"
| "step s (OpRespond e) = fst (handleResponse s e)"
| "step s (OpCancelRequest k) = s\<lparr>cancelled := insert k (cancelled s)\<rparr>"

definition run :: "Op list \<Rightarrow> RoutingService" where
  "run ops = foldl step newRoutingService ops"

section \<open>Communication service (\<open>service/tn-communication-service.ts\<close>)\<close>

text \<open>\<open>failFastIfOffline\<close> of \<open>TnBaseService\<close>, from \<open>isCoatyAgentOnline()\<close> and the
  connector option \<open>coatyFailFastIfOffline\<close>.\<close>

definition failFastIfOffline :: "bool \<Rightarrow> string \<Rightarrow> bool" where
  "failFastIfOffline isCoatyAgentOnline coatyFailFastIfOffline \<longleftrightarrow>
     \<not> isCoatyAgentOnline \<and> coatyFailFastIfOffline = ''true''"

text \<open>The empty message \<open>EventAck\<close>.\<close>

datatype EventAck = EventAck

text \<open>
  A response callback is the closure built by \<open>observeCall\<close>; it is represented by the
  variables it captures, the correlation id and the Coaty Call event it answers.
\<close>

record ResponseCallback =
  cbCorrelationId :: string
  cbCallEvent :: nat

record TnCommunicationService =
  observedResponseCallbacks :: "string \<rightharpoonup> ResponseCallback"

text \<open>The handler of \<open>_observeCall\<close> for one observed Call event: it stores the response
  callback under the correlation id of the event.\<close>

definition observeCallNext ::
  "TnCommunicationService \<Rightarrow> ResponseCallback \<Rightarrow> TnCommunicationService" where
  "observeCallNext s cb =
     s\<lparr>observedResponseCallbacks := (observedResponseCallbacks s)(cbCorrelationId cb \<mapsto> cb)\<rparr>"

text \<open>\<open>_publishReturn\<close>: the unary reply and the callback that is invoked, if any.\<close>

definition publishReturn ::
  "TnCommunicationService \<Rightarrow> bool \<Rightarrow> string \<Rightarrow> string
     \<Rightarrow> (StatusCode \<times> string + EventAck) \<times> ResponseCallback option" where
  "publishReturn s isCoatyAgentOnline coatyFailFastIfOffline correlationId =
     (case observedResponseCallbacks s correlationId of
        None \<Rightarrow> (Inr EventAck, None)
      | Some responseCallback \<Rightarrow>
          if failFastIfOffline isCoatyAgentOnline coatyFailFastIfOffline
          then (Inl (UNAVAILABLE, ''Coaty agent is offline''), None)
          else (Inr EventAck, Some responseCallback))"

text \<open>\<open>_publishComplete\<close>.\<close>

definition publishComplete ::
  "TnCommunicationService \<Rightarrow> string
     \<Rightarrow> TnCommunicationService \<times> (StatusCode \<times> string + EventAck)" where
  "publishComplete s correlationId =
     (s\<lparr>observedResponseCallbacks := (observedResponseCallbacks s)(correlationId := None)\<rparr>,
      Inr EventAck)"

section \<open>Consensus controller and service (\<open>controller/tn-consensus-controller.ts\<close>,
  \<open>service/tn-consensus-service.ts\<close>)\<close>

text \<open>
  The raw JSON representation of a \<open>google.protobuf.Value\<close>: an object with the fields
  that are set, in the order of their keys. \<open>null\<close> is \<open>None\<close>.
\<close>

datatype Json =
    JNull | JBool bool | JNumber int | JString string
  | JArray "Json list" | JObject "(string \<times> Json) list"

type_synonym JsObject = "(string \<times> Json) list"

datatype RaftInputOperation = Unspecified | Put | Delete

text \<open>\<open>RaftInput\<close>; \<open>inputRef\<close> is \<open>input.ref?.id\<close>.\<close>

record RaftInput =
  inputRef :: "string option"
  inputOp :: RaftInputOperation
  inputKey :: string
  inputValue :: "JsObject option"

text \<open>The state of a \<open>KVRaftStateMachine\<close>, a \<open>Map\<close> in insertion order.\<close>

type_synonym RaftState = "(string \<times> JsObject option) list"

datatype RaftError =
    RaftError_None | Internal | DisconnectBeforeOperationComplete
  | OperationNotSupportedInCurrentConnectionState | TooManyQueuedUpInputProposals
  | UndefinedRaftNodeId

text \<open>\<open>KVRaftStateMachine.processInput\<close>.\<close>

definition processInput :: "RaftState \<Rightarrow> RaftInput \<Rightarrow> RaftState" where
  "processInput st input =
     (case inputOp input of
        Put \<Rightarrow> AList.update (inputKey input) (inputValue input) st
      | Delete \<Rightarrow> AList.delete (inputKey input) st
      | Unspecified \<Rightarrow> st)"

text \<open>
  Modelled from the spec: \<open>RaftController.propose\<close> of the Raft library, which is not
  part of the repository. What the library does with a proposal is an input of the
  model: it commits it, applying it to the state machine of the node and returning
  the resulting state, or it throws one of its errors.
\<close>

datatype RaftOutcome =
    Committed
  | ThrowsTooManyQueuedUpInputProposals
  | ThrowsDisconnectBeforeOperationComplete
  | ThrowsOperationNotSupportedInCurrentConnectionState
  | ThrowsOther

text \<open>\<open>_raftControllers\<close>: the created nodes, each with its state machine.\<close>

type_synonym RaftControllers = "string \<rightharpoonup> RaftState"

definition raftPropose ::
  "RaftControllers \<Rightarrow> string \<Rightarrow> RaftState \<Rightarrow> RaftOutcome \<Rightarrow> RaftInput
     \<Rightarrow> RaftControllers \<times> (RaftError + RaftState)" where
  "raftPropose ctrls nid st outcome input =
     (case outcome of
        Committed \<Rightarrow> (ctrls(nid \<mapsto> processInput st input), Inr (processInput st input))
      | ThrowsTooManyQueuedUpInputProposals \<Rightarrow> (ctrls, Inl TooManyQueuedUpInputProposals)
      | ThrowsDisconnectBeforeOperationComplete \<Rightarrow> (ctrls, Inl DisconnectBeforeOperationComplete)
      | ThrowsOperationNotSupportedInCurrentConnectionState \<Rightarrow>
          (ctrls, Inl OperationNotSupportedInCurrentConnectionState)
      | ThrowsOther \<Rightarrow> (ctrls, Inl Internal))"

text \<open>
  \<open>TnConsensusController.propose\<close>. The loop over the keys of \<open>input.value\<close> finds
  whether the object has any key.
\<close>

definition propose ::
  "RaftControllers \<Rightarrow> RaftOutcome \<Rightarrow> RaftInput \<Rightarrow> RaftControllers \<times> (RaftError + RaftState)" where
  "propose ctrls outcome input =
     (case inputRef input of
        None \<Rightarrow> (ctrls, Inl UndefinedRaftNodeId)
      | Some nid \<Rightarrow>
          (case ctrls nid of
             None \<Rightarrow> (ctrls, Inl UndefinedRaftNodeId)
           | Some st \<Rightarrow>
               (let input' = (if inputValue input = None
                              then input\<lparr>inputValue := Some [(''nullValue'', JNumber 0)]\<rparr>
                              else input);
                    isEmptyObject = (case inputValue input' of None \<Rightarrow> True | Some v \<Rightarrow> v = [])
                in if isEmptyObject then (ctrls, Inl Internal)
                   else raftPropose ctrls nid st outcome input')))"

text \<open>
  \<open>TnConsensusService._propose\<close>: the node registry afterwards and the unary reply.
  No reply is sent for \<open>RaftError.None\<close>, which the \<open>switch\<close> does not handle.
\<close>

definition propose_handler ::
  "bool \<Rightarrow> string \<Rightarrow> RaftControllers \<Rightarrow> RaftOutcome \<Rightarrow> RaftInput
     \<Rightarrow> RaftControllers \<times> (StatusCode \<times> string + RaftState) option" where
  "propose_handler isCoatyAgentOnline coatyFailFastIfOffline ctrls outcome input =
     (if failFastIfOffline isCoatyAgentOnline coatyFailFastIfOffline
      then (ctrls, Some (Inl (UNAVAILABLE, ''Coaty agent is offline'')))
      else
        (case propose ctrls outcome input of
           (ctrls', Inr st) \<Rightarrow> (ctrls', Some (Inr st))
         | (ctrls', Inl UndefinedRaftNodeId) \<Rightarrow>
             (ctrls', Some (Inl (INVALID_ARGUMENT,
                                 ''Raft node with this id has not been created'')))
         | (ctrls', Inl TooManyQueuedUpInputProposals) \<Rightarrow>
             (ctrls', Some (Inl (OUT_OF_RANGE,
                                 ''Too many queued up input proposals for this Raft node'')))
         | (ctrls', Inl OperationNotSupportedInCurrentConnectionState) \<Rightarrow>
             (ctrls', Some (Inl (UNAVAILABLE, ''Raft node is currently not connected'')))
         | (ctrls', Inl DisconnectBeforeOperationComplete) \<Rightarrow>
             (ctrls', Some (Inl (UNAVAILABLE,
                                 ''Raft node stopped or disconnected before proposal committed'')))
         | (ctrls', Inl Internal) \<Rightarrow>
             (ctrls', Some (Inl (INTERNAL,
                                 ''Serialization format of input value may be invalid'')))
         | (ctrls', Inl RaftError_None) \<Rightarrow> (ctrls', None)))"

section \<open>Auxiliary notions for the proofs\<close>

text \<open>The pending requests of a route, empty when the route has no entry.\<close>

definition pend :: "RoutingService \<Rightarrow> string \<Rightarrow> (nat \<times> RequestCallItem) list" where
  "pend s r = (case requestCalls s r of None \<Rightarrow> [] | Some its \<Rightarrow> its)"

text \<open>The pending request under a route and a request id.\<close>

definition pendingRequest ::
  "RoutingService \<Rightarrow> string \<Rightarrow> nat option \<Rightarrow> RequestCallItem option" where
  "pendingRequest s r rid =
     (case requestCalls s r of
        None \<Rightarrow> None
      | Some its \<Rightarrow> (case rid of None \<Rightarrow> None | Some k \<Rightarrow> map_of its k))"

text \<open>Deleting one pending request, and the entry of the route with the last one.\<close>

definition dropPending :: "RoutingService \<Rightarrow> string \<Rightarrow> nat \<Rightarrow> RoutingService" where
  "dropPending s r k =
     (if AList.delete k (pend s r) = []
      then s\<lparr>requestCalls := (requestCalls s)(r := None)\<rparr>
      else s\<lparr>requestCalls := (requestCalls s)(r \<mapsto> AList.delete k (pend s r))\<rparr>)"

text \<open>The invariant of the routing tables.\<close>

definition oneWayOk :: "RoutingService \<Rightarrow> bool" where
  "oneWayOk s \<longleftrightarrow> (\<forall>r cs. registrationCallsOneWay s r = Some cs \<longrightarrow> cs \<noteq> [])"

definition groupOk :: "string \<Rightarrow> RegistrationCallTwoWayItems \<Rightarrow> bool" where
  "groupOk r g \<longleftrightarrow>
     calls g \<noteq> [] \<and>
     (\<forall>c \<in> set (calls g). route c = r \<and> routingPolicy c = policy g) \<and>
     (policy g = Single \<longrightarrow> length (calls g) \<le> 1) \<and>
     requestId g \<le> 0xFFFFFFFF"

definition twoWayOk :: "RoutingService \<Rightarrow> bool" where
  "twoWayOk s \<longleftrightarrow> (\<forall>r g. registrationCallsTwoWay s r = Some g \<longrightarrow> groupOk r g)"

definition itemsOk :: "string \<Rightarrow> (nat \<times> RequestCallItem) list \<Rightarrow> bool" where
  "itemsOk r its \<longleftrightarrow>
     distinct (map fst its) \<and>
     (\<forall>e \<in> set its. 1 \<le> fst e \<and> fst e \<le> 0xFFFFFFFF \<and>
        (\<forall>c. snd (snd e) = Some c \<longrightarrow> route c = r))"

definition pendingOk :: "RoutingService \<Rightarrow> bool" where
  "pendingOk s \<longleftrightarrow> (\<forall>r its. requestCalls s r = Some its \<longrightarrow> its \<noteq> [] \<and> itemsOk r its)"

definition wellFormed :: "RoutingService \<Rightarrow> bool" where
  "wellFormed s \<longleftrightarrow> oneWayOk s \<and> twoWayOk s \<and> pendingOk s"

text \<open>
  Whether a call is a request on a route that is given the request id \<open>k\<close>, and whether
  none of a sequence of calls is, starting from a state.
\<close>

fun allocates :: "RoutingService \<Rightarrow> Op \<Rightarrow> string \<Rightarrow> nat \<Rightarrow> bool" where
  "allocates s (OpRequest rc rnd) r k =
     (reqRoute (request rc) = r \<and>
      (case registrationCallsTwoWay s r of
         None \<Rightarrow> False
       | Some g \<Rightarrow> nextRequestId (requestId g) = k))"
| "allocates s _ r k = False"

fun neverAllocates :: "RoutingService \<Rightarrow> Op list \<Rightarrow> string \<Rightarrow> nat \<Rightarrow> bool" where
  "neverAllocates s [] r k = True"
| "neverAllocates s (op # ops) r k = (\<not> allocates s op r k \<and> neverAllocates (step s op) ops r k)"

text \<open>Whether a call is a request on a route, and whether the group of a route exists in
  every state that a sequence of calls goes through.\<close>

fun requestsOn :: "string \<Rightarrow> Op \<Rightarrow> bool" where
  "requestsOn r (OpRequest rc rnd) = (reqRoute (request rc) = r)"
| "requestsOn r _ = False"

fun groupKept :: "RoutingService \<Rightarrow> Op list \<Rightarrow> string \<Rightarrow> bool" where
  "groupKept s [] r = (registrationCallsTwoWay s r \<noteq> None)"
| "groupKept s (op # ops) r =
     (registrationCallsTwoWay s r \<noteq> None \<and> groupKept (step s op) ops r)"

section \<open>Payload codec: round trip\<close>

lemma masks:
  "(3 :: 8 word) = mask 2" "(15 :: 8 word) = mask 4" "(63 :: 8 word) = mask 6"
  "(48 :: 8 word) = push_bit 4 (mask 2)" "(60 :: 8 word) = push_bit 2 (mask 4)"
  by (simp_all add: mask_eq_exp_minus_1)

lemma SucSuc_diff2: "2 \<le> n \<Longrightarrow> Suc (Suc (n - 2)) = n"
  by simp

lemma byte1_sextets: "byte1 (sextet1 a) (sextet2 a b) = a"
  unfolding byte1_def sextet1_def sextet2_def
  apply (simp only: masks)
  apply (rule bit_word_eqI)
  subgoal for n
    by (cases "2 \<le> n"; cases "4 \<le> n"; cases "6 \<le> n"; auto simp: bit_simps SucSuc_diff2)
  done

lemma byte2_sextets: "byte2 (sextet2 a b) (sextet3 b c) = b"
  unfolding byte2_def sextet2_def sextet3_def
  apply (simp only: masks)
  apply (rule bit_word_eqI)
  subgoal for n
    by (cases "2 \<le> n"; cases "4 \<le> n"; cases "6 \<le> n"; auto simp: bit_simps SucSuc_diff2)
  done

lemma byte3_sextets: "byte3 (sextet3 b c) (sextet4 c) = c"
  unfolding byte3_def sextet3_def sextet4_def
  apply (simp only: masks)
  apply (rule bit_word_eqI)
  subgoal for n
    by (cases "2 \<le> n"; cases "4 \<le> n"; cases "6 \<le> n"; auto simp: bit_simps SucSuc_diff2)
  done

lemma sextet_lt: "w AND mask 6 = w \<Longrightarrow> unat (w :: 8 word) < 64"
proof -
  assume a: "w AND mask 6 = w"
  have "w AND mask 6 < 2 ^ 6" by (rule and_mask_less_size) (simp add: word_size)
  then have "w < 64" using a by simp
  then show ?thesis by (simp add: word_less_nat_alt)
qed

lemma sextet1_lt: "unat (sextet1 a) < 64"
  unfolding sextet1_def
  apply (rule sextet_lt)
  apply (rule bit_word_eqI)
  subgoal for n
    by (cases "6 \<le> n"; auto simp: bit_simps dest: bit_imp_le_length)
  done

lemma sextet2_lt: "unat (sextet2 a b) < 64"
  unfolding sextet2_def
  apply (rule sextet_lt)
  apply (simp only: masks)
  apply (rule bit_word_eqI)
  subgoal for n
    by (cases "6 \<le> n"; auto simp: bit_simps dest: bit_imp_le_length)
  done

lemma sextet3_lt: "unat (sextet3 b c) < 64"
  unfolding sextet3_def
  apply (rule sextet_lt)
  apply (simp only: masks)
  apply (rule bit_word_eqI)
  subgoal for n
    by (cases "6 \<le> n"; auto simp: bit_simps dest: bit_imp_le_length)
  done

lemma sextet4_lt: "unat (sextet4 c) < 64"
  unfolding sextet4_def
  apply (rule sextet_lt)
  apply (simp only: masks)
  apply (rule bit_word_eqI)
  subgoal for n
    by (auto simp: bit_simps)
  done

lemma indexOf_nth: "distinct xs \<Longrightarrow> i < length xs \<Longrightarrow> indexOf (xs ! i) xs = Some i"
proof (induction xs arbitrary: i)
  case Nil
  then show ?case by simp
next
  case (Cons y ys)
  show ?case
  proof (cases i)
    case 0
    then show ?thesis by simp
  next
    case (Suc j)
    with Cons.prems have "j < length ys" "ys ! j \<noteq> y" "distinct ys" by auto
    with Cons.IH[of j] Suc show ?thesis by simp
  qed
qed

lemma indexOf_None: "c \<notin> set xs \<Longrightarrow> indexOf c xs = None"
  by (induction xs) auto

lemma base64Chars_distinct: "distinct base64Chars"
  by (simp add: base64Chars_def)

lemma base64Chars_length: "length base64Chars = 64"
  by (simp add: base64Chars_def)

lemma base64Chars_others:
  "CHR ''-'' \<notin> set base64Chars" "CHR ''_'' \<notin> set base64Chars" "CHR ''='' \<notin> set base64Chars"
  by (simp_all add: base64Chars_def)

lemma unbase64_encodeSextet: "unat w < 64 \<Longrightarrow> unbase64 (encodeSextet w) = Some w"
proof -
  assume lt: "unat w < 64"
  then have mem: "base64Chars ! unat w \<in> set base64Chars"
    by (simp add: base64Chars_length)
  then have ne: "base64Chars ! unat w \<noteq> CHR ''-''" "base64Chars ! unat w \<noteq> CHR ''_''"
    using base64Chars_others by auto
  have "indexOf (base64Chars ! unat w) base64Chars = Some (unat w)"
    using lt by (intro indexOf_nth base64Chars_distinct) (simp add: base64Chars_length)
  then show ?thesis
    using ne by (simp add: unbase64_def encodeSextet_def)
qed

lemma decodeSextets_encoded:
  "unat w < 64 \<Longrightarrow> decodeSextets (encodeSextet w # cs) = w # decodeSextets cs"
  by (simp add: unbase64_encodeSextet)

lemma decodeSextets_pad: "decodeSextets (CHR ''='' # cs) = []"
  using base64Chars_others(3) by (simp add: unbase64_def indexOf_None)

text \<open>The test vectors of RFC 4648 for \<open>f\<close>, \<open>fo\<close>, \<open>foo\<close> and \<open>foob\<close>.\<close>

lemma base64_rfc4648_vectors:
  "base64Encode [0x66] = ''Zg==''"
  "base64Encode [0x66, 0x6F] = ''Zm8=''"
  "base64Encode [0x66, 0x6F, 0x6F] = ''Zm9v''"
  "base64Decode ''Zm9vYg=='' = [0x66, 0x6F, 0x6F, 0x62]"
  by (simp_all add: base64Decode_def unbase64_def encodeSextet_def base64Chars_def
      sextet1_def sextet2_def sextet3_def sextet4_def byte1_def byte2_def byte3_def)

declare decodeSextets.simps(2) [simp del]

lemma base64_roundtrip: "base64Decode (base64Encode bs) = bs"
  unfolding base64Decode_def
proof (induction bs rule: base64Encode.induct)
  case (1 a b c rest)
  then show ?case
    by (simp add: decodeSextets_encoded sextet1_lt sextet2_lt sextet3_lt sextet4_lt
        byte1_sextets byte2_sextets byte3_sextets)
next
  case (2 a b)
  then show ?case
    by (simp add: decodeSextets_encoded decodeSextets_pad sextet1_lt sextet2_lt sextet3_lt
        byte1_sextets byte2_sextets)
next
  case (3 a)
  then show ?case
    by (simp add: decodeSextets_encoded decodeSextets_pad sextet1_lt sextet2_lt byte1_sextets)
next
  case 4
  then show ?case by simp
qed

text \<open>
  Claim C2 (payload codec round trip). Converting the bytes of a wire payload to Base64
  and back yields the same bytes, for every byte array; a channel event converted to its
  Coaty object and back is the same event, the type URL being carried in \<open>objectType\<close>
  and the Base64 text of the unchanged bytes in \<open>value\<close>.
\<close>

theorem C2_payload_roundtrip:
  "base64ToByteArray (byteArrayToBase64 v) = v \<and>
   observeChannelEvent (publishChannel uuid e) = e \<and>
   objectType (snd (publishChannel uuid e)) = type_url (channelData e) \<and>
   objectValue (snd (publishChannel uuid e)) = base64Encode (any_value (channelData e))"
  by (simp add: base64ToByteArray_def byteArrayToBase64_def base64_roundtrip
      observeChannelEvent_def publishChannel_def)

section \<open>Routing service: the invariant of the tables\<close>

lemma set_splice1: "set (splice1 i xs) \<subseteq> set xs"
  unfolding splice1_def by (auto dest: in_set_takeD in_set_dropD)

lemma nextRequestId_range: "1 \<le> nextRequestId k \<and> nextRequestId k \<le> 0xFFFFFFFF"
  unfolding nextRequestId_def by simp

lemma registerCall_fields:
  "requestCalls (fst (registerCall s c tw)) = requestCalls s"
  "cancelled (fst (registerCall s c tw)) = cancelled s"
  unfolding registerCall_def by (auto simp: Let_def split: option.splits)

lemma registerCall_oneWayOk: "oneWayOk s \<Longrightarrow> oneWayOk (fst (registerCall s c tw))"
  unfolding registerCall_def oneWayOk_def by (auto simp: Let_def split: option.splits)

lemma registerCall_twoWayOk: "twoWayOk s \<Longrightarrow> twoWayOk (fst (registerCall s c tw))"
  unfolding registerCall_def twoWayOk_def groupOk_def
  by (auto simp: Let_def split: option.splits)

lemma itemsOk_Nil: "itemsOk r []"
  by (simp add: itemsOk_def)

lemma pendingOk_alt:
  "pendingOk s \<longleftrightarrow> (\<forall>r. requestCalls s r \<noteq> Some [] \<and> itemsOk r (pend s r))"
proof
  assume a: "pendingOk s"
  show "\<forall>r. requestCalls s r \<noteq> Some [] \<and> itemsOk r (pend s r)"
  proof
    fix r
    show "requestCalls s r \<noteq> Some [] \<and> itemsOk r (pend s r)"
      using a by (cases "requestCalls s r") (auto simp: pendingOk_def pend_def itemsOk_Nil)
  qed
next
  assume a: "\<forall>r. requestCalls s r \<noteq> Some [] \<and> itemsOk r (pend s r)"
  show "pendingOk s"
    unfolding pendingOk_def
  proof (intro allI impI)
    fix r its assume "requestCalls s r = Some its"
    with a[rule_format, of r] show "its \<noteq> [] \<and> itemsOk r its"
      by (auto simp: pend_def)
  qed
qed

lemma itemsOk_delete: "itemsOk r its \<Longrightarrow> itemsOk r (AList.delete k its)"
proof -
  assume a: "itemsOk r its"
  have "set (AList.delete k its) \<subseteq> set its"
    by (auto simp: AList.delete_eq)
  moreover have "distinct (map fst (AList.delete k its))"
    using a by (simp add: itemsOk_def distinct_delete)
  ultimately show ?thesis using a unfolding itemsOk_def by blast
qed

lemma dropPending_fields:
  "registrationCallsOneWay (dropPending s r k) = registrationCallsOneWay s"
  "registrationCallsTwoWay (dropPending s r k) = registrationCallsTwoWay s"
  "cancelled (dropPending s r k) = cancelled s"
  by (simp_all add: dropPending_def)

lemma pend_dropPending:
  "pend (dropPending s r k) r' = (if r' = r then AList.delete k (pend s r) else pend s r')"
  by (simp add: dropPending_def pend_def)

lemma dropPending_no_empty:
  "requestCalls s r' \<noteq> Some [] \<Longrightarrow> requestCalls (dropPending s r k) r' \<noteq> Some []"
  by (simp add: dropPending_def)

lemma dropPending_pendingOk: "pendingOk s \<Longrightarrow> pendingOk (dropPending s r k)"
  unfolding pendingOk_alt
  by (simp add: pend_dropPending dropPending_no_empty itemsOk_delete)

lemma cancelLoop_Cons:
  "cancelLoop c (e # rest) s =
     (if snd (snd e) = Some c then
        (fst (cancelLoop c rest (dropPending s (route c) (fst e))),
         (if requestCallId (fst (snd e)) \<notin> cancelled s
          then [RequestCallback (fst (snd e))
                  (Inl (CANCELLED, ''Correlated registration deregistered before response''))]
          else []) @ snd (cancelLoop c rest (dropPending s (route c) (fst e))))
      else cancelLoop c rest s)"
  by (cases e rule: prod_cases3) (simp add: Let_def split_beta dropPending_def pend_def)

declare cancelLoop.simps(2) [simp del]

lemma cancelLoop_oneWay:
  "registrationCallsOneWay (fst (cancelLoop c todo s)) = registrationCallsOneWay s"
  by (induction todo arbitrary: s) (simp_all add: cancelLoop_Cons dropPending_fields)

lemma cancelLoop_twoWay:
  "registrationCallsTwoWay (fst (cancelLoop c todo s)) = registrationCallsTwoWay s"
  by (induction todo arbitrary: s) (simp_all add: cancelLoop_Cons dropPending_fields)

lemma cancelLoop_cancelled:
  "cancelled (fst (cancelLoop c todo s)) = cancelled s"
  by (induction todo arbitrary: s) (simp_all add: cancelLoop_Cons dropPending_fields)

lemmas cancelLoop_fields = cancelLoop_oneWay cancelLoop_twoWay cancelLoop_cancelled

lemma cancelLoop_pendingOk: "pendingOk s \<Longrightarrow> pendingOk (fst (cancelLoop c todo s))"
  by (induction todo arbitrary: s) (simp_all add: cancelLoop_Cons dropPending_pendingOk)

lemma cancelRequestCalls_fields:
  "registrationCallsOneWay (fst (cancelRequestCalls s c)) = registrationCallsOneWay s"
  "registrationCallsTwoWay (fst (cancelRequestCalls s c)) = registrationCallsTwoWay s"
  "cancelled (fst (cancelRequestCalls s c)) = cancelled s"
  by (simp_all add: cancelRequestCalls_def cancelLoop_fields split: option.splits)

lemma cancelRequestCalls_pendingOk: "pendingOk s \<Longrightarrow> pendingOk (fst (cancelRequestCalls s c))"
  by (simp add: cancelRequestCalls_def cancelLoop_pendingOk split: option.splits)

lemma groupOk_splice1:
  assumes "groupOk r g" "splice1 i (calls g) \<noteq> []"
  shows "groupOk r (g\<lparr>calls := splice1 i (calls g)\<rparr>)"
proof -
  have "length (splice1 i (calls g)) \<le> length (calls g)"
    by (simp add: splice1_def)
  with assms set_splice1[of i "calls g"] show ?thesis
    unfolding groupOk_def by auto
qed

lemma deregisterCall_oneWayOk: "oneWayOk s \<Longrightarrow> oneWayOk (fst (deregisterCall s c tw))"
  unfolding deregisterCall_def oneWayOk_def
  by (auto simp: Let_def cancelRequestCalls_fields split: option.splits)

lemma deregisterCall_twoWayOk: "twoWayOk s \<Longrightarrow> twoWayOk (fst (deregisterCall s c tw))"
  unfolding deregisterCall_def twoWayOk_def
  by (auto simp: Let_def cancelRequestCalls_fields groupOk_splice1 split: option.splits)

lemma deregisterCall_pendingOk: "pendingOk s \<Longrightarrow> pendingOk (fst (deregisterCall s c tw))"
proof -
  assume a: "pendingOk s"
  have *: "\<And>f. pendingOk (s\<lparr>registrationCallsTwoWay := f\<rparr>)"
          "\<And>f. pendingOk (s\<lparr>registrationCallsOneWay := f\<rparr>)"
    using a by (simp_all add: pendingOk_def)
  show ?thesis
    unfolding deregisterCall_def
    by (auto simp: Let_def a * cancelRequestCalls_pendingOk split: option.splits)
qed

lemma jsIndex_mem: "jsIndex xs i = Some x \<Longrightarrow> x \<in> set xs"
  by (auto simp: jsIndex_def split: if_splits)

lemma selector_mem: "routingPolicySelector p cur rnd cs = (Some c, i) \<Longrightarrow> c \<in> set cs"
  by (cases p) (auto dest: jsIndex_mem)

lemma itemsOk_update:
  assumes "itemsOk r its" "1 \<le> k" "k \<le> 0xFFFFFFFF" "\<And>c. snd v = Some c \<Longrightarrow> route c = r"
  shows "itemsOk r (AList.update k v its)"
proof -
  have "set (AList.update k v its) \<subseteq> insert (k, v) (set its)"
    by (induction its) auto
  moreover have "distinct (map fst (AList.update k v its))"
    using assms(1) by (simp add: itemsOk_def distinct_update)
  ultimately show ?thesis using assms unfolding itemsOk_def by fastforce
qed

lemma update_not_Nil: "AList.update k v its \<noteq> []"
  by (cases its) auto

lemma handleRequest_fields:
  "registrationCallsOneWay (fst (handleRequest s rc rnd)) = registrationCallsOneWay s"
  "cancelled (fst (handleRequest s rc rnd)) = cancelled s"
  unfolding handleRequest_def addRequestCall_def
  by (auto simp: Let_def split: option.splits prod.splits)

lemma handleRequest_twoWayOk: "twoWayOk s \<Longrightarrow> twoWayOk (fst (handleRequest s rc rnd))"
  unfolding handleRequest_def addRequestCall_def twoWayOk_def groupOk_def
  by (auto simp: Let_def nextRequestId_range split: option.splits prod.splits)

lemma handleRequest_pendingOk:
  assumes "twoWayOk s" "pendingOk s"
  shows "pendingOk (fst (handleRequest s rc rnd))"
proof (cases "registrationCallsTwoWay s (reqRoute (request rc))")
  case None
  then show ?thesis using assms by (simp add: handleRequest_def)
next
  case (Some g)
  obtain reg idx where sel:
    "routingPolicySelector (policy g) (currentCallIndex g) rnd (calls g) = (reg, idx)"
    by (cases "routingPolicySelector (policy g) (currentCallIndex g) rnd (calls g)")
  let ?r = "reqRoute (request rc)"
  let ?k = "nextRequestId (requestId g)"
  have reg: "\<And>c. reg = Some c \<Longrightarrow> route c = ?r"
    using selector_mem[of "policy g" "currentCallIndex g" rnd "calls g"] sel Some assms(1)
    unfolding twoWayOk_def groupOk_def by blast
  have rq: "requestCalls (fst (handleRequest s rc rnd)) =
        (requestCalls s)(?r \<mapsto> AList.update ?k (rc, reg) (pend s ?r))"
    using Some sel unfolding handleRequest_def addRequestCall_def pend_def
    by (auto simp: Let_def split: option.splits)
  have "itemsOk ?r (AList.update ?k (rc, reg) (pend s ?r))"
    using assms(2) reg nextRequestId_range[of "requestId g"]
    by (intro itemsOk_update) (auto simp: pendingOk_alt)
  then show ?thesis
    using assms(2) unfolding pendingOk_def rq by (auto simp: update_not_Nil)
qed

lemma removeRequestCall_Some:
  "requestCalls s r \<noteq> None \<Longrightarrow> removeRequestCall s r (Some k) = (dropPending s r k, map_of (pend s r) k)"
  unfolding removeRequestCall_def dropPending_def pend_def
  by (auto simp: Let_def)

lemma removeRequestCall_fields:
  "registrationCallsOneWay (fst (removeRequestCall s r k)) = registrationCallsOneWay s"
  "registrationCallsTwoWay (fst (removeRequestCall s r k)) = registrationCallsTwoWay s"
  "cancelled (fst (removeRequestCall s r k)) = cancelled s"
  unfolding removeRequestCall_def by (auto simp: Let_def split: option.splits)

lemma removeRequestCall_pendingOk: "pendingOk s \<Longrightarrow> pendingOk (fst (removeRequestCall s r k))"
proof (cases k)
  case None
  assume "pendingOk s"
  then show ?thesis using None unfolding removeRequestCall_def pendingOk_def
    by (auto simp: Let_def split: option.splits)
next
  case (Some a)
  assume "pendingOk s"
  then show ?thesis using Some
  proof (cases "requestCalls s r")
    case None
    then show ?thesis using \<open>pendingOk s\<close> by (simp add: removeRequestCall_def)
  next
    case (Some its)
    then have "requestCalls s r \<noteq> None" by simp
    then show ?thesis using \<open>pendingOk s\<close> \<open>k = Some a\<close>
      by (simp add: removeRequestCall_Some dropPending_pendingOk)
  qed
qed

lemma handleResponse_fst: "fst (handleResponse s e) = fst (removeRequestCall s (resRoute e) (resRequestId e))"
  unfolding handleResponse_def by (auto split: prod.splits option.splits)

lemma handleRegister_fst: "fst (handleRegister s c tw) = fst (registerCall s c tw)"
  unfolding handleRegister_def by (auto split: prod.splits option.splits)

lemma step_wellFormed: "wellFormed s \<Longrightarrow> wellFormed (step s op)"
proof (cases op)
  case (OpRegister c tw)
  assume "wellFormed s"
  then show ?thesis using OpRegister
    by (simp add: wellFormed_def handleRegister_fst registerCall_oneWayOk registerCall_twoWayOk
        pendingOk_def registerCall_fields)
next
  case (OpDeregister c tw)
  assume "wellFormed s"
  then show ?thesis using OpDeregister
    by (simp add: wellFormed_def deregisterCall_oneWayOk deregisterCall_twoWayOk deregisterCall_pendingOk)
next
  case (OpPush e)
  assume "wellFormed s"
  then show ?thesis using OpPush by simp
next
  case (OpRequest rc rnd)
  assume "wellFormed s"
  then show ?thesis using OpRequest
    by (simp add: wellFormed_def handleRequest_twoWayOk handleRequest_pendingOk
        oneWayOk_def handleRequest_fields)
next
  case (OpRespond e)
  assume "wellFormed s"
  then show ?thesis using OpRespond
    by (simp add: wellFormed_def handleResponse_fst removeRequestCall_pendingOk
        oneWayOk_def twoWayOk_def removeRequestCall_fields)
next
  case (OpCancelRequest k)
  assume "wellFormed s"
  then show ?thesis using OpCancelRequest
    by (simp add: wellFormed_def oneWayOk_def twoWayOk_def pendingOk_def)
qed

lemma foldl_step_wellFormed: "wellFormed s \<Longrightarrow> wellFormed (foldl step s ops)"
  by (induction ops arbitrary: s) (simp_all add: step_wellFormed)

lemma run_wellFormed: "wellFormed (run ops)"
  unfolding run_def
  by (rule foldl_step_wellFormed)
     (simp add: wellFormed_def oneWayOk_def twoWayOk_def pendingOk_def newRoutingService_def)

lemma pendingRequest_pend: "pendingRequest s r (Some k) = map_of (pend s r) k"
  by (simp add: pendingRequest_def pend_def split: option.splits)

lemma removeRequestCall_snd: "snd (removeRequestCall s r rid) = pendingRequest s r rid"
  by (simp add: removeRequestCall_def pendingRequest_def Let_def split: option.splits)

lemma removeRequestCall_gone: "pendingRequest (fst (removeRequestCall s r rid)) r rid = None"
  by (cases rid)
     (auto simp: removeRequestCall_def pendingRequest_def Let_def delete_conv' split: option.splits)

lemma handleResponse_alt:
  "handleResponse s e =
     (fst (removeRequestCall s (resRoute e) (resRequestId e)),
      (case pendingRequest s (resRoute e) (resRequestId e) of
         None \<Rightarrow> ([], Inl (INVALID_ARGUMENT,
                        ''Response event discarded as no correlated registration exits''))
       | Some (rq, reg) \<Rightarrow>
           if requestCallId rq \<in> cancelled s then ([], Inr \<lparr>routingCount = 0\<rparr>)
           else ([RequestCallback rq (Inr (e\<lparr>resRequestId := None\<rparr>))], Inr \<lparr>routingCount = 1\<rparr>)))"
  using removeRequestCall_snd[of s "resRoute e" "resRequestId e"]
  by (cases "removeRequestCall s (resRoute e) (resRequestId e)")
     (auto simp: handleResponse_def split: option.splits)

lemma findIndex_remove1:
  "findIndex (\<lambda>x. x = c) xs = Some i \<Longrightarrow> splice1 i xs = remove1 c xs"
proof (induction xs arbitrary: i)
  case Nil
  then show ?case by simp
next
  case (Cons a xs)
  show ?case
  proof (cases "a = c")
    case True
    then show ?thesis using Cons.prems by (simp add: splice1_def)
  next
    case False
    then obtain j where j: "findIndex (\<lambda>x. x = c) xs = Some j" "i = Suc j"
      using Cons.prems by (auto split: option.splits)
    from Cons.IH[OF j(1)] show ?thesis using False j(2) by (simp add: splice1_def)
  qed
qed

lemma findIndex_mem: "c \<in> set xs \<Longrightarrow> \<exists>i. findIndex (\<lambda>x. x = c) xs = Some i"
  by (induction xs) auto

lemma deregisterCall_oneWay_entry:
  assumes "registrationCallsOneWay s (route c) = Some cs" "c \<in> set cs"
  shows "registrationCallsOneWay (fst (deregisterCall s c False)) (route c) =
        (if remove1 c cs = [] then None else Some (remove1 c cs))"
proof -
  obtain i where i: "findIndex (\<lambda>x. x = c) cs = Some i"
    using assms(2) findIndex_mem[of c cs] by blast
  have sp: "splice1 i cs = remove1 c cs" using i by (rule findIndex_remove1)
  have "deregisterCall s c False = (if length (remove1 c cs) = 0
                     then s\<lparr>registrationCallsOneWay := (registrationCallsOneWay s)(route c := None)\<rparr>
                     else s\<lparr>registrationCallsOneWay := (registrationCallsOneWay s)(route c \<mapsto> remove1 c cs)\<rparr>,
                     [])"
    unfolding deregisterCall_def Let_def assms(1) by (simp only: i sp option.case if_False)
  then show ?thesis
    by simp
qed

lemma deregisterCall_twoWay_found:
  assumes "registrationCallsTwoWay s (route c) = Some g" "c \<in> set (calls g)"
  shows "deregisterCall s c True =
           cancelRequestCalls
             (if length (remove1 c (calls g)) = 0
              then s\<lparr>registrationCallsTwoWay := (registrationCallsTwoWay s)(route c := None)\<rparr>
              else s\<lparr>registrationCallsTwoWay :=
                       (registrationCallsTwoWay s)(route c \<mapsto> g\<lparr>calls := remove1 c (calls g)\<rparr>)\<rparr>) c"
proof -
  obtain i where i: "findIndex (\<lambda>x. x = c) (calls g) = Some i"
    using assms(2) findIndex_mem[of c "calls g"] by blast
  have sp: "splice1 i (calls g) = remove1 c (calls g)" using i by (rule findIndex_remove1)
  show ?thesis
    unfolding deregisterCall_def Let_def assms(1) by (simp only: i sp option.case if_True)
qed

lemma deregisterCall_twoWay_entry:
  assumes "registrationCallsTwoWay s (route c) = Some g" "c \<in> set (calls g)"
  shows "map_option calls (registrationCallsTwoWay (fst (deregisterCall s c True)) (route c)) =
        (if remove1 c (calls g) = [] then None else Some (remove1 c (calls g)))"
  unfolding deregisterCall_twoWay_found[OF assms]
  by (simp add: cancelRequestCalls_fields)

lemma run_twoWay: "registrationCallsTwoWay (run ops) r = Some g \<Longrightarrow> groupOk r g"
  using run_wellFormed[of ops] by (simp add: wellFormed_def twoWayOk_def)

lemma registerCall_rejected_unchanged:
  "registerCall s c tw = (s', Some msg) \<Longrightarrow> s' = s"
  unfolding registerCall_def
  by (auto simp: Let_def split: if_splits option.splits)

lemma delete_filter: "AList.delete k al = filter (\<lambda>e. fst e \<noteq> k) al"
  by (induction al) auto

lemma cancelLoop_pend:
  "pend (fst (cancelLoop c todo s)) r' =
     (if r' = route c
      then filter (\<lambda>e. fst e \<notin> fst ` {x \<in> set todo. snd (snd x) = Some c}) (pend s (route c))
      else pend s r')"
proof (induction todo arbitrary: s)
  case Nil
  then show ?case by simp
next
  case (Cons e rest)
  show ?case
  proof (cases "snd (snd e) = Some c")
    case False
    then have "{x \<in> set (e # rest). snd (snd x) = Some c} = {x \<in> set rest. snd (snd x) = Some c}"
      by auto
    then show ?thesis using False Cons.IH[of s] by (simp add: cancelLoop_Cons)
  next
    case True
    then have K: "{x \<in> set (e # rest). snd (snd x) = Some c} =
                  insert e {x \<in> set rest. snd (snd x) = Some c}"
      by auto
    show ?thesis
      unfolding K using True Cons.IH[of "dropPending s (route c) (fst e)"]
      by (simp add: cancelLoop_Cons pend_dropPending delete_filter conj_commute)
  qed
qed

lemma cancelLoop_effects:
  assumes "e \<in> set todo" "snd (snd e) = Some c" "requestCallId (fst (snd e)) \<notin> cancelled s"
  shows "RequestCallback (fst (snd e))
           (Inl (CANCELLED, ''Correlated registration deregistered before response''))
         \<in> set (snd (cancelLoop c todo s))"
  using assms
proof (induction todo arbitrary: s)
  case Nil
  then show ?case by simp
next
  case (Cons a rest)
  show ?case
  proof (cases "e = a")
    case True
    then show ?thesis using Cons.prems by (simp add: cancelLoop_Cons)
  next
    case False
    then have mem: "e \<in> set rest" using Cons.prems by simp
    show ?thesis
    proof (cases "snd (snd a) = Some c")
      case True
      have "requestCallId (fst (snd e)) \<notin> cancelled (dropPending s (route c) (fst a))"
        using Cons.prems by (simp add: dropPending_fields)
      from Cons.IH[OF mem Cons.prems(2) this] True show ?thesis
        by (simp add: cancelLoop_Cons)
    next
      case False
      from Cons.IH[OF mem Cons.prems(2,3)] False show ?thesis
        by (simp add: cancelLoop_Cons)
    qed
  qed
qed

lemma cancelRequestCalls_alt: "cancelRequestCalls s c = cancelLoop c (pend s (route c)) s"
  by (simp add: cancelRequestCalls_def pend_def split: option.splits)

lemma run_pending: "itemsOk r (pend (run ops) r)"
  using run_wellFormed[of ops] by (simp add: wellFormed_def pendingOk_alt)

lemma pendingRequest_absent: "pendingRequest s r (Some k) = None \<longleftrightarrow> k \<notin> fst ` set (pend s r)"
  by (simp add: pendingRequest_pend map_of_eq_None_iff)

lemma pend_cong: "requestCalls s' = requestCalls s \<Longrightarrow> pend s' = pend s"
  by (simp add: pend_def fun_eq_iff)

lemma findIndex_notmem: "c \<notin> set xs \<Longrightarrow> findIndex (\<lambda>x. x = c) xs = None"
  by (induction xs) auto

lemma cancelRequestCalls_pend_subset:
  assumes "requestCalls s1 = requestCalls s"
  shows "set (pend (fst (cancelRequestCalls s1 c)) r) \<subseteq> set (pend s r)"
proof -
  have p: "pend s1 = pend s" using assms by (rule pend_cong)
  have "set (pend (fst (cancelLoop c (pend s1 (route c)) s1)) r) \<subseteq> set (pend s1 r)"
    unfolding cancelLoop_pend by simp
  then show ?thesis by (simp only: cancelRequestCalls_alt p)
qed

lemma deregisterCall_pend_subset: "set (pend (fst (deregisterCall s c tw)) r) \<subseteq> set (pend s r)"
proof (cases tw)
  case False
  have "requestCalls (fst (deregisterCall s c False)) = requestCalls s"
    by (simp add: deregisterCall_def Let_def split: option.splits)
  then have "pend (fst (deregisterCall s c False)) = pend s" by (rule pend_cong)
  then show ?thesis using False by simp
next
  case tw: True
  show ?thesis
  proof (cases "registrationCallsTwoWay s (route c)")
    case None
    then show ?thesis using tw by (simp add: deregisterCall_def)
  next
    case (Some g)
    show ?thesis
    proof (cases "c \<in> set (calls g)")
      case False
      then have "findIndex (\<lambda>item. item = c) (calls g) = None"
        by (rule findIndex_notmem)
      then show ?thesis using tw Some by (simp add: deregisterCall_def)
    next
      case mem: True
      have "set (pend (fst (deregisterCall s c True)) r) \<subseteq> set (pend s r)"
        unfolding deregisterCall_twoWay_found[OF Some mem]
        by (rule cancelRequestCalls_pend_subset) simp
      then show ?thesis using tw by simp
    qed
  qed
qed

lemma removeRequestCall_pend_subset:
  "set (pend (fst (removeRequestCall s r' rid)) r) \<subseteq> set (pend s r)"
proof (cases "requestCalls s r'")
  case None
  then show ?thesis by (simp add: removeRequestCall_def)
next
  case (Some its)
  show ?thesis
  proof (cases rid)
    case None
    then show ?thesis using Some
      by (auto simp: removeRequestCall_def pend_def split: if_splits)
  next
    case (Some k)
    have "requestCalls s r' \<noteq> None" using \<open>requestCalls s r' = Some its\<close> by simp
    then show ?thesis using Some
      by (auto simp: removeRequestCall_Some pend_dropPending delete_filter)
  qed
qed

lemma handleRequest_requestCalls:
  assumes "registrationCallsTwoWay s (reqRoute (request rc)) = Some g"
  shows "\<exists>reg. requestCalls (fst (handleRequest s rc rnd)) =
           (requestCalls s)(reqRoute (request rc) \<mapsto>
              AList.update (nextRequestId (requestId g)) (rc, reg) (pend s (reqRoute (request rc))))"
  using assms unfolding handleRequest_def addRequestCall_def pend_def
  by (auto simp: Let_def split: option.splits prod.splits)

lemma handleRequest_none:
  "registrationCallsTwoWay s (reqRoute (request rc)) = None \<Longrightarrow> fst (handleRequest s rc rnd) = s"
  by (simp add: handleRequest_def)

lemma step_keeps_absent:
  assumes "pendingRequest s r (Some k) = None" and "\<not> allocates s op r k"
  shows "pendingRequest (step s op) r (Some k) = None"
proof (cases op)
  case (OpRegister c tw)
  then show ?thesis using assms(1) pend_cong[of "fst (registerCall s c tw)" s]
    by (simp add: pendingRequest_pend handleRegister_fst registerCall_fields)
next
  case (OpDeregister c tw)
  then show ?thesis using assms(1) deregisterCall_pend_subset[of s c tw r]
    by (auto simp: pendingRequest_absent)
next
  case (OpPush e)
  then show ?thesis using assms(1) by simp
next
  case (OpRequest rc rnd)
  show ?thesis
  proof (cases "registrationCallsTwoWay s (reqRoute (request rc))")
    case None
    then show ?thesis using OpRequest assms(1) by (simp add: handleRequest_none)
  next
    case (Some g)
    from handleRequest_requestCalls[OF Some, of rnd] obtain reg where
      rq: "requestCalls (fst (handleRequest s rc rnd)) =
           (requestCalls s)(reqRoute (request rc) \<mapsto>
              AList.update (nextRequestId (requestId g)) (rc, reg) (pend s (reqRoute (request rc))))"
      by blast
    show ?thesis
    proof (cases "reqRoute (request rc) = r")
      case False
      then show ?thesis using OpRequest assms(1) rq
        by (simp add: pendingRequest_def)
    next
      case True
      then have "nextRequestId (requestId g) \<noteq> k"
        using assms(2) OpRequest Some by simp
      then show ?thesis using OpRequest assms(1) rq True
        by (simp add: pendingRequest_def pend_def update_conv' split: option.splits)
    qed
  qed
next
  case (OpRespond e)
  then show ?thesis
    using assms(1) removeRequestCall_pend_subset[of s "resRoute e" "resRequestId e" r]
    by (auto simp: pendingRequest_absent handleResponse_fst)
next
  case (OpCancelRequest x)
  then show ?thesis using assms(1) by (simp add: pendingRequest_def)
qed

lemma foldl_keeps_absent:
  "pendingRequest s r (Some k) = None \<Longrightarrow> neverAllocates s ops r k \<Longrightarrow>
   pendingRequest (foldl step s ops) r (Some k) = None"
  by (induction ops arbitrary: s) (simp_all add: step_keeps_absent)

lemma respond_absent:
  "pendingRequest s (resRoute e) (resRequestId e) = None \<Longrightarrow>
   snd (handleResponse s e) =
     ([], Inl (INVALID_ARGUMENT, ''Response event discarded as no correlated registration exits''))"
  by (simp add: handleResponse_alt)

lemma registerCall_counter:
  assumes "registrationCallsTwoWay s r = Some g"
    and "registrationCallsTwoWay (fst (registerCall s c tw)) r = Some g'"
  shows "requestId g' = requestId g"
  using assms unfolding registerCall_def
  by (auto simp: Let_def split: if_splits option.splits)

lemma deregisterCall_counter:
  assumes "registrationCallsTwoWay s r = Some g"
    and "registrationCallsTwoWay (fst (deregisterCall s c tw)) r = Some g'"
  shows "requestId g' = requestId g"
proof (cases tw)
  case False
  then show ?thesis using assms
    by (auto simp: deregisterCall_def Let_def split: option.splits if_splits)
next
  case tw: True
  show ?thesis
  proof (cases "registrationCallsTwoWay s (route c)")
    case None
    then show ?thesis using tw assms by (simp add: deregisterCall_def)
  next
    case (Some h)
    show ?thesis
    proof (cases "c \<in> set (calls h)")
      case False
      then have "findIndex (\<lambda>item. item = c) (calls h) = None"
        by (rule findIndex_notmem)
      then show ?thesis using tw Some assms by (simp add: deregisterCall_def)
    next
      case mem: True
      have e: "deregisterCall s c tw = deregisterCall s c True" using tw by simp
      show ?thesis
        using assms(1) Some assms(2)[unfolded e deregisterCall_twoWay_found[OF Some mem]]
        by (auto simp: cancelRequestCalls_fields split: if_splits)
    qed
  qed
qed

lemma handleRequest_other_route:
  "reqRoute (request rc) \<noteq> r \<Longrightarrow>
   registrationCallsTwoWay (fst (handleRequest s rc rnd)) r = registrationCallsTwoWay s r"
  unfolding handleRequest_def addRequestCall_def
  by (auto simp: Let_def split: option.splits prod.splits)

lemma step_keeps_counter:
  assumes "registrationCallsTwoWay s r = Some g" and "\<not> requestsOn r op"
    and "registrationCallsTwoWay (step s op) r = Some g'"
  shows "requestId g' = requestId g"
proof (cases op)
  case (OpRegister c tw)
  then show ?thesis using assms registerCall_counter[of s r g c tw g']
    by (simp add: handleRegister_fst)
next
  case (OpDeregister c tw)
  then show ?thesis using assms deregisterCall_counter[of s r g c tw g'] by simp
next
  case (OpPush e)
  then show ?thesis using assms by simp
next
  case (OpRequest rc rnd)
  then show ?thesis using assms by (simp add: handleRequest_other_route)
next
  case (OpRespond e)
  then show ?thesis using assms by (simp add: handleResponse_fst removeRequestCall_fields)
next
  case (OpCancelRequest x)
  then show ?thesis using assms by simp
qed

lemma groupKept_head: "groupKept s ops r \<Longrightarrow> registrationCallsTwoWay s r \<noteq> None"
  by (cases ops) simp_all

lemma foldl_keeps_counter:
  "groupKept s ops r \<Longrightarrow> \<forall>op \<in> set ops. \<not> requestsOn r op \<Longrightarrow>
   map_option requestId (registrationCallsTwoWay (foldl step s ops) r) =
   map_option requestId (registrationCallsTwoWay s r)"
proof (induction ops arbitrary: s)
  case Nil
  then show ?case by simp
next
  case (Cons op ops)
  from Cons.prems(1) obtain g where g: "registrationCallsTwoWay s r = Some g"
    and kept: "groupKept (step s op) ops r" by auto
  from groupKept_head[OF kept] obtain g' where g': "registrationCallsTwoWay (step s op) r = Some g'"
    by auto
  have "requestId g' = requestId g"
    using step_keeps_counter[OF g _ g'] Cons.prems(2) by simp
  then show ?case
    using Cons.IH[OF kept] Cons.prems(2) g g' by simp
qed

lemma handleRequest_allocates:
  assumes "registrationCallsTwoWay s (reqRoute (request rc)) = Some g"
  shows "map_option requestId (registrationCallsTwoWay (fst (handleRequest s rc rnd)) (reqRoute (request rc)))
           = Some (nextRequestId (requestId g)) \<and>
         (\<exists>reg. pendingRequest (fst (handleRequest s rc rnd)) (reqRoute (request rc))
                  (Some (nextRequestId (requestId g))) = Some (rc, reg)) \<and>
         (\<forall>c ev. snd (handleRequest s rc rnd) = Inr [WriteRequest c ev] \<longrightarrow>
                  reqRequestId ev = Some (nextRequestId (requestId g)))"
proof (intro conjI)
  show "map_option requestId (registrationCallsTwoWay (fst (handleRequest s rc rnd)) (reqRoute (request rc)))
           = Some (nextRequestId (requestId g))"
    using assms unfolding handleRequest_def addRequestCall_def
    by (auto simp: Let_def split: option.splits prod.splits)
  from handleRequest_requestCalls[OF assms, of rnd] obtain reg where
      rq: "requestCalls (fst (handleRequest s rc rnd)) =
           (requestCalls s)(reqRoute (request rc) \<mapsto>
              AList.update (nextRequestId (requestId g)) (rc, reg) (pend s (reqRoute (request rc))))"
    by blast
  show "\<exists>reg. pendingRequest (fst (handleRequest s rc rnd)) (reqRoute (request rc))
                  (Some (nextRequestId (requestId g))) = Some (rc, reg)"
    by (rule exI[of _ reg]) (simp add: pendingRequest_def rq update_conv')
  show "\<forall>c ev. snd (handleRequest s rc rnd) = Inr [WriteRequest c ev] \<longrightarrow>
                  reqRequestId ev = Some (nextRequestId (requestId g))"
    using assms unfolding handleRequest_def addRequestCall_def
    by (auto simp: Let_def split: option.splits prod.splits)
qed

lemma registerCall_fresh_counter:
  "registrationCallsTwoWay s (route c) = None \<Longrightarrow>
   map_option requestId (registrationCallsTwoWay (fst (registerCall s c True)) (route c)) = Some 0"
  by (simp add: registerCall_def Let_def)

lemmas routing_eval =
  run_def newRoutingService_def handleRegister_def registerCall_def deregisterCall_def
  cancelRequestCalls_def cancelLoop.simps(2) handleRequest_def addRequestCall_def
  removeRequestCall_def handleResponse_def jsIndex_def splice1_def nextRequestId_def
  pendingRequest_def Let_def

section \<open>Routing service: the claims\<close>

text \<open>
  Claim C1 (NEXT routing policy, cursor within bounds). The claim says that the index
  used to pick a registration is always strictly less than the length of the list, the
  cursor being clamped when a registration is removed. \<open>_deregisterCall\<close> does not touch
  \<open>currentCallIndex\<close>: after two NEXT registrations on a route, one request and the
  deregistration of the second registration, the group holds one registration and the
  cursor is 1. The selector then reads index 1 of a list of length 1, which is
  \<open>undefined\<close>, and the next request throws a \<open>TypeError\<close> at
  \<open>registrationCall.write\<close>.
\<close>

theorem C1_next_cursor_out_of_bounds:
  "map_option calls (registrationCallsTwoWay
      (run [OpRegister \<lparr>callId = 1, route = ''r'', routingPolicy = Next\<rparr> True,
            OpRegister \<lparr>callId = 2, route = ''r'', routingPolicy = Next\<rparr> True,
            OpRequest \<lparr>requestCallId = 7, request = \<lparr>reqRoute = ''r'', reqRequestId = None, reqData = None\<rparr>\<rparr> 0,
            OpDeregister \<lparr>callId = 2, route = ''r'', routingPolicy = Next\<rparr> True]) ''r'')
     = Some [\<lparr>callId = 1, route = ''r'', routingPolicy = Next\<rparr>] \<and>
   map_option currentCallIndex (registrationCallsTwoWay
      (run [OpRegister \<lparr>callId = 1, route = ''r'', routingPolicy = Next\<rparr> True,
            OpRegister \<lparr>callId = 2, route = ''r'', routingPolicy = Next\<rparr> True,
            OpRequest \<lparr>requestCallId = 7, request = \<lparr>reqRoute = ''r'', reqRequestId = None, reqData = None\<rparr>\<rparr> 0,
            OpDeregister \<lparr>callId = 2, route = ''r'', routingPolicy = Next\<rparr> True]) ''r'')
     = Some 1 \<and>
   routingPolicySelector Next 1 0 [\<lparr>callId = 1, route = ''r'', routingPolicy = Next\<rparr>] = (None, 0) \<and>
   snd (handleRequest
      (run [OpRegister \<lparr>callId = 1, route = ''r'', routingPolicy = Next\<rparr> True,
            OpRegister \<lparr>callId = 2, route = ''r'', routingPolicy = Next\<rparr> True,
            OpRequest \<lparr>requestCallId = 7, request = \<lparr>reqRoute = ''r'', reqRequestId = None, reqData = None\<rparr>\<rparr> 0,
            OpDeregister \<lparr>callId = 2, route = ''r'', routingPolicy = Next\<rparr> True])
      \<lparr>requestCallId = 8, request = \<lparr>reqRoute = ''r'', reqRequestId = None, reqData = None\<rparr>\<rparr> 0)
     = Inl TypeError"
  by (simp add: routing_eval)

text \<open>
  Claim C3 (the three outcomes of Respond), with the details text the code sends. If no
  pending request exists under the route and request id of the response, the reply is
  \<open>INVALID_ARGUMENT\<close> with details
  "Response event discarded as no correlated registration exits" and nothing is
  delivered. If one exists it is removed; when its request call is cancelled (or its
  deadline exceeded) nothing is delivered and the reply is \<open>routingCount = 0\<close>; otherwise
  the response without its \<open>requestId\<close> is the unary reply of the request call and the
  reply is \<open>routingCount = 1\<close>.
\<close>

theorem C3_respond_cases:
  "(pendingRequest s (resRoute e) (resRequestId e) = None \<longrightarrow>
      snd (handleResponse s e) =
        ([], Inl (INVALID_ARGUMENT, ''Response event discarded as no correlated registration exits''))) \<and>
   (\<forall>rq reg. pendingRequest s (resRoute e) (resRequestId e) = Some (rq, reg) \<longrightarrow>
      pendingRequest (fst (handleResponse s e)) (resRoute e) (resRequestId e) = None \<and>
      (requestCallId rq \<in> cancelled s \<longrightarrow>
         snd (handleResponse s e) = ([], Inr \<lparr>routingCount = 0\<rparr>)) \<and>
      (requestCallId rq \<notin> cancelled s \<longrightarrow>
         snd (handleResponse s e) =
           ([RequestCallback rq (Inr (e\<lparr>resRequestId := None\<rparr>))], Inr \<lparr>routingCount = 1\<rparr>)))"
  by (simp add: handleResponse_alt removeRequestCall_gone)

text \<open>The three cases of C3 on concrete states: no pending request, a live requester,
  a cancelled requester.\<close>

theorem C3_respond_cases_witness:
  "pendingRequest newRoutingService ''r'' (Some 1) = None \<and>
   snd (handleResponse newRoutingService
          \<lparr>resRoute = ''r'', resRequestId = Some 1, resData = None, resError = None\<rparr>) =
     ([], Inl (INVALID_ARGUMENT, ''Response event discarded as no correlated registration exits'')) \<and>
   pendingRequest
     (run [OpRegister \<lparr>callId = 1, route = ''r'', routingPolicy = Single\<rparr> True,
           OpRequest \<lparr>requestCallId = 7, request = \<lparr>reqRoute = ''r'', reqRequestId = None, reqData = None\<rparr>\<rparr> 0])
     ''r'' (Some 1) =
     Some (\<lparr>requestCallId = 7, request = \<lparr>reqRoute = ''r'', reqRequestId = None, reqData = None\<rparr>\<rparr>,
           Some \<lparr>callId = 1, route = ''r'', routingPolicy = Single\<rparr>) \<and>
   snd (handleResponse
     (run [OpRegister \<lparr>callId = 1, route = ''r'', routingPolicy = Single\<rparr> True,
           OpRequest \<lparr>requestCallId = 7, request = \<lparr>reqRoute = ''r'', reqRequestId = None, reqData = None\<rparr>\<rparr> 0])
     \<lparr>resRoute = ''r'', resRequestId = Some 1, resData = None, resError = None\<rparr>) =
     ([RequestCallback \<lparr>requestCallId = 7, request = \<lparr>reqRoute = ''r'', reqRequestId = None, reqData = None\<rparr>\<rparr>
         (Inr \<lparr>resRoute = ''r'', resRequestId = None, resData = None, resError = None\<rparr>)],
      Inr \<lparr>routingCount = 1\<rparr>) \<and>
   snd (handleResponse
     (run [OpRegister \<lparr>callId = 1, route = ''r'', routingPolicy = Single\<rparr> True,
           OpRequest \<lparr>requestCallId = 7, request = \<lparr>reqRoute = ''r'', reqRequestId = None, reqData = None\<rparr>\<rparr> 0,
           OpCancelRequest 7])
     \<lparr>resRoute = ''r'', resRequestId = Some 1, resData = None, resError = None\<rparr>) =
     ([], Inr \<lparr>routingCount = 0\<rparr>)"
  using C3_respond_cases [of newRoutingService
          "\<lparr>resRoute = ''r'', resRequestId = Some 1, resData = None, resError = None\<rparr>"]
        C3_respond_cases [of
          "run [OpRegister \<lparr>callId = 1, route = ''r'', routingPolicy = Single\<rparr> True,
           OpRequest \<lparr>requestCallId = 7, request = \<lparr>reqRoute = ''r'', reqRequestId = None, reqData = None\<rparr>\<rparr> 0]"
          "\<lparr>resRoute = ''r'', resRequestId = Some 1, resData = None, resError = None\<rparr>"]
        C3_respond_cases [of
          "run [OpRegister \<lparr>callId = 1, route = ''r'', routingPolicy = Single\<rparr> True,
           OpRequest \<lparr>requestCallId = 7, request = \<lparr>reqRoute = ''r'', reqRequestId = None, reqData = None\<rparr>\<rparr> 0,
           OpCancelRequest 7]"
          "\<lparr>resRoute = ''r'', resRequestId = Some 1, resData = None, resError = None\<rparr>"]
  by (simp add: routing_eval)

text \<open>
  The details text of claim C3 as the claim words it ("... no correlated registration
  exists") is not what the service replies: the text in the code and in its tests ends
  in "exits".
\<close>

theorem C3_details_counterexample:
  "pendingRequest newRoutingService ''r'' (Some 1) = None \<and>
   snd (snd (handleResponse newRoutingService
          \<lparr>resRoute = ''r'', resRequestId = Some 1, resData = None, resError = None\<rparr>)) \<noteq>
     Inl (INVALID_ARGUMENT, ''Response event discarded as no correlated registration exists'')"
  by (simp add: routing_eval)

text \<open>
  Claim C4 (policy of a request route group). In every state reached by a sequence of
  calls, all registrations of a group have the policy of the group and a group with
  policy \<open>Single\<close> holds at most one registration. A further registration on the route
  is rejected with \<open>INVALID_ARGUMENT\<close>, leaving the state as it is, when the policy of
  the group is \<open>Single\<close> or differs from the policy of the registration; and every
  rejected registration leaves the state, hence the list of the group, unchanged.
\<close>

theorem C4_group_policy:
  assumes "registrationCallsTwoWay (run ops) r = Some g"
  shows "(\<forall>c \<in> set (calls g). routingPolicy c = policy g) \<and>
         (policy g = Single \<longrightarrow> length (calls g) \<le> 1) \<and>
         (\<forall>c. route c = r \<and> (policy g = Single \<or> policy g \<noteq> routingPolicy c) \<longrightarrow>
            (\<exists>msg. handleRegister (run ops) c True = (run ops, [EmitError c INVALID_ARGUMENT msg]))) \<and>
         (\<forall>c s' msg. registerCall (run ops) c True = (s', Some msg) \<longrightarrow> s' = run ops)"
proof -
  have ok: "groupOk r g" using assms by (rule run_twoWay)
  have rej: "\<exists>msg. handleRegister (run ops) c True = (run ops, [EmitError c INVALID_ARGUMENT msg])"
    if "route c = r" "policy g = Single \<or> policy g \<noteq> routingPolicy c" for c
    using that assms ok
    by (auto simp: handleRegister_def registerCall_def groupOk_def)
  show ?thesis
    using ok rej registerCall_rejected_unchanged
    unfolding groupOk_def by blast
qed

text \<open>C4 on a route with one \<open>Single\<close> registration: a second registration is rejected.\<close>

theorem C4_group_policy_witness:
  "registrationCallsTwoWay
     (run [OpRegister \<lparr>callId = 1, route = ''r'', routingPolicy = Single\<rparr> True]) ''r'' =
     Some \<lparr>calls = [\<lparr>callId = 1, route = ''r'', routingPolicy = Single\<rparr>], requestId = 0,
           policy = Single, currentCallIndex = 0\<rparr> \<and>
   (\<exists>msg. handleRegister
      (run [OpRegister \<lparr>callId = 1, route = ''r'', routingPolicy = Single\<rparr> True])
      \<lparr>callId = 2, route = ''r'', routingPolicy = First\<rparr> True =
      (run [OpRegister \<lparr>callId = 1, route = ''r'', routingPolicy = Single\<rparr> True],
       [EmitError \<lparr>callId = 2, route = ''r'', routingPolicy = First\<rparr> INVALID_ARGUMENT msg]))"
proof -
  have h: "registrationCallsTwoWay
     (run [OpRegister \<lparr>callId = 1, route = ''r'', routingPolicy = Single\<rparr> True]) ''r'' =
     Some \<lparr>calls = [\<lparr>callId = 1, route = ''r'', routingPolicy = Single\<rparr>], requestId = 0,
           policy = Single, currentCallIndex = 0\<rparr>"
    by (simp add: routing_eval)
  from C4_group_policy [OF h] have
    "\<forall>c. route c = ''r'' \<and> (Single = Single \<or> Single \<noteq> routingPolicy c) \<longrightarrow>
        (\<exists>msg. handleRegister
          (run [OpRegister \<lparr>callId = 1, route = ''r'', routingPolicy = Single\<rparr> True]) c True =
          (run [OpRegister \<lparr>callId = 1, route = ''r'', routingPolicy = Single\<rparr> True],
           [EmitError c INVALID_ARGUMENT msg]))"
    by simp
  then have "\<exists>msg. handleRegister
      (run [OpRegister \<lparr>callId = 1, route = ''r'', routingPolicy = Single\<rparr> True])
      \<lparr>callId = 2, route = ''r'', routingPolicy = First\<rparr> True =
      (run [OpRegister \<lparr>callId = 1, route = ''r'', routingPolicy = Single\<rparr> True],
       [EmitError \<lparr>callId = 2, route = ''r'', routingPolicy = First\<rparr> INVALID_ARGUMENT msg])"
    by simp
  with h show ?thesis by blast
qed

text \<open>
  Claim C5 (deregistration cancels the correlated pending requests), with the Respond
  bounded as the code has it. When a registration that is in the group of its route is
  deregistered, no pending request with this registration as its chosen one remains;
  each such pending request whose request call is not cancelled has its unary call
  failed with \<open>CANCELLED\<close> and details
  "Correlated registration deregistered before response"; and a Respond for its route
  and request id is answered with \<open>INVALID_ARGUMENT\<close> right after the deregistration and
  after any further calls, as long as none of them is a request on the route that is
  given the same request id again.
\<close>

theorem C5_deregistration_cancels_pending:
  assumes "registrationCallsTwoWay (run ops) (route c) = Some g"
    and "c \<in> set (calls g)"
    and "deregisterCall (run ops) c True = (s', effs)"
  shows "(\<forall>r k rq reg. pendingRequest s' r (Some k) = Some (rq, reg) \<longrightarrow> reg \<noteq> Some c) \<and>
         (\<forall>r k rq. pendingRequest (run ops) r (Some k) = Some (rq, Some c) \<longrightarrow>
            pendingRequest s' r (Some k) = None \<and>
            (requestCallId rq \<notin> cancelled (run ops) \<longrightarrow>
               RequestCallback rq
                 (Inl (CANCELLED, ''Correlated registration deregistered before response''))
               \<in> set effs) \<and>
            (\<forall>e ops'. resRoute e = r \<and> resRequestId e = Some k \<and>
                      neverAllocates s' ops' r k \<longrightarrow>
               (\<exists>d. snd (handleResponse (foldl step s' ops') e) =
                      ([], Inl (INVALID_ARGUMENT, d)))))"
proof -
  let ?s = "run ops"
  define s1 where "s1 = (if length (remove1 c (calls g)) = 0
              then ?s\<lparr>registrationCallsTwoWay := (registrationCallsTwoWay ?s)(route c := None)\<rparr>
              else ?s\<lparr>registrationCallsTwoWay :=
                       (registrationCallsTwoWay ?s)(route c \<mapsto> g\<lparr>calls := remove1 c (calls g)\<rparr>)\<rparr>)"
  define todo where "todo = pend ?s (route c)"
  define K where "K = fst ` {x \<in> set todo. snd (snd x) = Some c}"
  have p1: "pend s1 = pend ?s" and c1: "cancelled s1 = cancelled ?s"
    by (auto simp: s1_def pend_def fun_eq_iff)
  have "deregisterCall ?s c True = cancelRequestCalls s1 c"
    unfolding s1_def by (rule deregisterCall_twoWay_found[OF assms(1,2)])
  then have res: "(s', effs) = cancelLoop c todo s1"
    using assms(3) by (simp only: cancelRequestCalls_alt p1 todo_def)
  have pend': "pend s' r = (if r = route c then filter (\<lambda>e. fst e \<notin> K) todo else pend ?s r)" for r
    using cancelLoop_pend[of c todo s1 r] res[symmetric] by (simp add: p1 K_def todo_def)
  have ok: "itemsOk r (pend ?s r)" for r by (rule run_pending)
  have dist: "distinct (map fst todo)" using ok[of "route c"] by (simp add: itemsOk_def todo_def)
  have A: "reg \<noteq> Some c" if h: "pendingRequest s' r (Some k) = Some (rq, reg)" for r k rq reg
  proof
    assume eq: "reg = Some c"
    have mem: "(k, rq, reg) \<in> set (pend s' r)"
      using h by (simp add: pendingRequest_pend map_of_SomeD)
    show False
    proof (cases "r = route c")
      case True
      then have "(k, rq, reg) \<in> set todo" "k \<notin> K" using mem by (auto simp: pend')
      moreover have "k \<in> K" using \<open>(k, rq, reg) \<in> set todo\<close> eq unfolding K_def by force
      ultimately show False by simp
    next
      case False
      then have "(k, rq, reg) \<in> set (pend ?s r)" using mem by (simp add: pend')
      then have "route c = r" using ok[of r] eq unfolding itemsOk_def by force
      then show False using False by simp
    qed
  qed
  have B: "pendingRequest s' r (Some k) = None \<and>
            (requestCallId rq \<notin> cancelled (run ops) \<longrightarrow>
               RequestCallback rq
                 (Inl (CANCELLED, ''Correlated registration deregistered before response''))
               \<in> set effs) \<and>
            (\<forall>e ops'. resRoute e = r \<and> resRequestId e = Some k \<and>
                      neverAllocates s' ops' r k \<longrightarrow>
               (\<exists>d. snd (handleResponse (foldl step s' ops') e) =
                      ([], Inl (INVALID_ARGUMENT, d))))"
    if h: "pendingRequest ?s r (Some k) = Some (rq, Some c)" for r k rq
  proof -
    have mem: "(k, rq, Some c) \<in> set (pend ?s r)"
      using h by (simp add: pendingRequest_pend map_of_SomeD)
    then have r: "r = route c" using ok[of r] unfolding itemsOk_def by force
    have memt: "(k, rq, Some c) \<in> set todo" using mem r by (simp add: todo_def)
    then have "k \<in> K" unfolding K_def by force
    then have "k \<notin> fst ` set (pend s' r)" by (auto simp: pend' r)
    then have gone: "pendingRequest s' r (Some k) = None"
      by (simp add: pendingRequest_pend map_of_eq_None_iff)
    have eff: "requestCallId rq \<notin> cancelled (run ops) \<Longrightarrow>
               RequestCallback rq
                 (Inl (CANCELLED, ''Correlated registration deregistered before response''))
               \<in> set effs"
      using cancelLoop_effects[of "(k, rq, Some c)" todo c s1] memt res[symmetric]
      by (simp add: c1)
    have "\<exists>d. snd (handleResponse (foldl step s' ops') e) = ([], Inl (INVALID_ARGUMENT, d))"
      if "resRoute e = r \<and> resRequestId e = Some k \<and> neverAllocates s' ops' r k" for e ops'
      using that foldl_keeps_absent[OF gone, of ops'] by (simp add: respond_absent)
    with gone eff show ?thesis by blast
  qed
  from A B show ?thesis by blast
qed

text \<open>C5 on a route with one registration and one pending request, the Respond coming
  after a new registration on the route.\<close>

theorem C5_deregistration_cancels_pending_witness:
  "registrationCallsTwoWay
     (run [OpRegister \<lparr>callId = 1, route = ''r'', routingPolicy = Single\<rparr> True,
           OpRequest \<lparr>requestCallId = 7, request = \<lparr>reqRoute = ''r'', reqRequestId = None, reqData = None\<rparr>\<rparr> 0])
     ''r'' =
     Some \<lparr>calls = [\<lparr>callId = 1, route = ''r'', routingPolicy = Single\<rparr>], requestId = 1, policy = Single, currentCallIndex = 0\<rparr> \<and>
   pendingRequest
     (run [OpRegister \<lparr>callId = 1, route = ''r'', routingPolicy = Single\<rparr> True,
           OpRequest \<lparr>requestCallId = 7, request = \<lparr>reqRoute = ''r'', reqRequestId = None, reqData = None\<rparr>\<rparr> 0])
     ''r'' (Some 1) =
     Some (\<lparr>requestCallId = 7, request = \<lparr>reqRoute = ''r'', reqRequestId = None, reqData = None\<rparr>\<rparr>,
           Some \<lparr>callId = 1, route = ''r'', routingPolicy = Single\<rparr>) \<and>
   pendingRequest (fst (deregisterCall
     (run [OpRegister \<lparr>callId = 1, route = ''r'', routingPolicy = Single\<rparr> True,
           OpRequest \<lparr>requestCallId = 7, request = \<lparr>reqRoute = ''r'', reqRequestId = None, reqData = None\<rparr>\<rparr> 0])
     \<lparr>callId = 1, route = ''r'', routingPolicy = Single\<rparr> True)) ''r'' (Some 1) = None \<and>
   RequestCallback \<lparr>requestCallId = 7, request = \<lparr>reqRoute = ''r'', reqRequestId = None, reqData = None\<rparr>\<rparr>
     (Inl (CANCELLED, ''Correlated registration deregistered before response''))
   \<in> set (snd (deregisterCall
     (run [OpRegister \<lparr>callId = 1, route = ''r'', routingPolicy = Single\<rparr> True,
           OpRequest \<lparr>requestCallId = 7, request = \<lparr>reqRoute = ''r'', reqRequestId = None, reqData = None\<rparr>\<rparr> 0])
     \<lparr>callId = 1, route = ''r'', routingPolicy = Single\<rparr> True)) \<and>
   neverAllocates (fst (deregisterCall
     (run [OpRegister \<lparr>callId = 1, route = ''r'', routingPolicy = Single\<rparr> True,
           OpRequest \<lparr>requestCallId = 7, request = \<lparr>reqRoute = ''r'', reqRequestId = None, reqData = None\<rparr>\<rparr> 0])
     \<lparr>callId = 1, route = ''r'', routingPolicy = Single\<rparr> True))
     [OpRegister \<lparr>callId = 2, route = ''r'', routingPolicy = Single\<rparr> True] ''r'' 1 \<and>
   (\<exists>d. snd (handleResponse (foldl step (fst (deregisterCall
     (run [OpRegister \<lparr>callId = 1, route = ''r'', routingPolicy = Single\<rparr> True,
           OpRequest \<lparr>requestCallId = 7, request = \<lparr>reqRoute = ''r'', reqRequestId = None, reqData = None\<rparr>\<rparr> 0])
     \<lparr>callId = 1, route = ''r'', routingPolicy = Single\<rparr> True))
     [OpRegister \<lparr>callId = 2, route = ''r'', routingPolicy = Single\<rparr> True])
     \<lparr>resRoute = ''r'', resRequestId = Some 1, resData = None, resError = None\<rparr>) =
       ([], Inl (INVALID_ARGUMENT, d)))"
proof -
  let ?a = "\<lparr>callId = 1, route = ''r'', routingPolicy = Single\<rparr>"
  let ?a2 = "\<lparr>callId = 2, route = ''r'', routingPolicy = Single\<rparr>"
  let ?q = "\<lparr>requestCallId = 7, request = \<lparr>reqRoute = ''r'', reqRequestId = None, reqData = None\<rparr>\<rparr>"
  let ?e = "\<lparr>resRoute = ''r'', resRequestId = Some 1, resData = None, resError = None\<rparr>"
  let ?ops = "[OpRegister ?a True, OpRequest ?q 0]"
  let ?g = "\<lparr>calls = [?a], requestId = 1, policy = Single, currentCallIndex = 0\<rparr>"
  let ?s' = "fst (deregisterCall (run ?ops) ?a True)"
  have h1: "registrationCallsTwoWay (run ?ops) (route ?a) = Some ?g"
    by (simp add: routing_eval)
  have h2: "?a \<in> set (calls ?g)" by simp
  have h3: "deregisterCall (run ?ops) ?a True = (?s', snd (deregisterCall (run ?ops) ?a True))"
    by simp
  have p: "pendingRequest (run ?ops) ''r'' (Some 1) = Some (?q, Some ?a)"
    by (simp add: routing_eval)
  have nc: "requestCallId ?q \<notin> cancelled (run ?ops)"
    by (simp add: routing_eval)
  have na: "neverAllocates ?s' [OpRegister ?a2 True] ''r'' 1"
    by simp
  have re: "resRoute ?e = ''r'' \<and> resRequestId ?e = Some 1 \<and>
            neverAllocates ?s' [OpRegister ?a2 True] ''r'' 1"
    using na by simp
  from C5_deregistration_cancels_pending [OF h1 h2 h3] p nc re
  have "pendingRequest ?s' ''r'' (Some 1) = None \<and>
        RequestCallback ?q (Inl (CANCELLED, ''Correlated registration deregistered before response''))
          \<in> set (snd (deregisterCall (run ?ops) ?a True)) \<and>
        (\<exists>d. snd (handleResponse (foldl step ?s' [OpRegister ?a2 True]) ?e) =
           ([], Inl (INVALID_ARGUMENT, d)))"
    by blast
  with h1 p na show ?thesis by simp
qed

text \<open>
  Claim C5 as stated fails for a Respond that comes later: when the last registration
  of the route has left, the group is deleted, and a new registration creates a group
  whose counter starts at 0 again. The next request on the route is given the id 1
  once more, and a Respond for the route and id 1 is delivered to the new requester
  with \<open>routingCount = 1\<close>.
\<close>

theorem C5_later_respond_counterexample:
  "pendingRequest
     (run [OpRegister \<lparr>callId = 1, route = ''r'', routingPolicy = Single\<rparr> True,
           OpRequest \<lparr>requestCallId = 7, request = \<lparr>reqRoute = ''r'', reqRequestId = None, reqData = None\<rparr>\<rparr> 0])
     ''r'' (Some 1) =
     Some (\<lparr>requestCallId = 7, request = \<lparr>reqRoute = ''r'', reqRequestId = None, reqData = None\<rparr>\<rparr>,
           Some \<lparr>callId = 1, route = ''r'', routingPolicy = Single\<rparr>) \<and>
   snd (handleResponse (foldl step (fst (deregisterCall
     (run [OpRegister \<lparr>callId = 1, route = ''r'', routingPolicy = Single\<rparr> True,
           OpRequest \<lparr>requestCallId = 7, request = \<lparr>reqRoute = ''r'', reqRequestId = None, reqData = None\<rparr>\<rparr> 0])
     \<lparr>callId = 1, route = ''r'', routingPolicy = Single\<rparr> True))
     [OpRegister \<lparr>callId = 2, route = ''r'', routingPolicy = Single\<rparr> True,
      OpRequest \<lparr>requestCallId = 8, request = \<lparr>reqRoute = ''r'', reqRequestId = None, reqData = None\<rparr>\<rparr> 0])
     \<lparr>resRoute = ''r'', resRequestId = Some 1, resData = None, resError = None\<rparr>) =
     ([RequestCallback \<lparr>requestCallId = 8, request = \<lparr>reqRoute = ''r'', reqRequestId = None, reqData = None\<rparr>\<rparr>
         (Inr \<lparr>resRoute = ''r'', resRequestId = None, resData = None, resError = None\<rparr>)],
      Inr \<lparr>routingCount = 1\<rparr>)"
  by (simp add: routing_eval)

text \<open>
  Claim C6 (table entries exist exactly for non-empty lists). In every state reached by
  a sequence of calls, no entry of the push table holds an empty list and no group of
  the request table has an empty list of registrations. Registering on a push route
  appends to the list of the route, creating the entry when it is absent, and
  registering on a request route without a group creates the group with this
  registration; deregistering a registration of a route removes it from the list and
  deletes the entry exactly when the list becomes empty.
\<close>

theorem C6_table_entries:
  "(r \<in> dom (registrationCallsOneWay (run ops)) \<longleftrightarrow>
      (case registrationCallsOneWay (run ops) r of None \<Rightarrow> [] | Some cs \<Rightarrow> cs) \<noteq> []) \<and>
   (r \<in> dom (registrationCallsTwoWay (run ops)) \<longleftrightarrow>
      (case registrationCallsTwoWay (run ops) r of None \<Rightarrow> [] | Some g \<Rightarrow> calls g) \<noteq> []) \<and>
   (\<forall>c. route c = r \<longrightarrow>
      registrationCallsOneWay (fst (handleRegister (run ops) c False)) r =
        Some ((case registrationCallsOneWay (run ops) r of None \<Rightarrow> [] | Some cs \<Rightarrow> cs) @ [c])) \<and>
   (\<forall>c. route c = r \<and> registrationCallsTwoWay (run ops) r = None \<longrightarrow>
      map_option calls (registrationCallsTwoWay (fst (handleRegister (run ops) c True)) r) = Some [c]) \<and>
   (\<forall>c cs. route c = r \<and> registrationCallsOneWay (run ops) r = Some cs \<and> c \<in> set cs \<longrightarrow>
      registrationCallsOneWay (fst (deregisterCall (run ops) c False)) r =
        (if remove1 c cs = [] then None else Some (remove1 c cs))) \<and>
   (\<forall>c g. route c = r \<and> registrationCallsTwoWay (run ops) r = Some g \<and> c \<in> set (calls g) \<longrightarrow>
      map_option calls (registrationCallsTwoWay (fst (deregisterCall (run ops) c True)) r) =
        (if remove1 c (calls g) = [] then None else Some (remove1 c (calls g))))"
proof (intro conjI allI impI)
  show "r \<in> dom (registrationCallsOneWay (run ops)) \<longleftrightarrow>
      (case registrationCallsOneWay (run ops) r of None \<Rightarrow> [] | Some cs \<Rightarrow> cs) \<noteq> []"
    using run_wellFormed[of ops]
    by (cases "registrationCallsOneWay (run ops) r") (auto simp: wellFormed_def oneWayOk_def)
  show "r \<in> dom (registrationCallsTwoWay (run ops)) \<longleftrightarrow>
      (case registrationCallsTwoWay (run ops) r of None \<Rightarrow> [] | Some g \<Rightarrow> calls g) \<noteq> []"
    using run_twoWay[of ops r]
    by (cases "registrationCallsTwoWay (run ops) r") (auto simp: groupOk_def)
  show "registrationCallsOneWay (fst (handleRegister (run ops) c False)) r =
        Some ((case registrationCallsOneWay (run ops) r of None \<Rightarrow> [] | Some cs \<Rightarrow> cs) @ [c])"
    if "route c = r" for c
    using that by (simp add: handleRegister_fst registerCall_def Let_def)
  show "map_option calls (registrationCallsTwoWay (fst (handleRegister (run ops) c True)) r) = Some [c]"
    if "route c = r \<and> registrationCallsTwoWay (run ops) r = None" for c
    using that by (simp add: handleRegister_fst registerCall_def Let_def)
  show "registrationCallsOneWay (fst (deregisterCall (run ops) c False)) r =
        (if remove1 c cs = [] then None else Some (remove1 c cs))"
    if h: "route c = r \<and> registrationCallsOneWay (run ops) r = Some cs \<and> c \<in> set cs" for c cs
    using h deregisterCall_oneWay_entry[of "run ops" c cs] by blast
  show "map_option calls (registrationCallsTwoWay (fst (deregisterCall (run ops) c True)) r) =
        (if remove1 c (calls g) = [] then None else Some (remove1 c (calls g)))"
    if h: "route c = r \<and> registrationCallsTwoWay (run ops) r = Some g \<and> c \<in> set (calls g)" for c g
    using h deregisterCall_twoWay_entry[of "run ops" c g] by blast
qed

text \<open>C6 on a state with one push registration and one request registration on a route.\<close>

theorem C6_table_entries_witness:
  "registrationCallsOneWay
     (run [OpRegister \<lparr>callId = 1, route = ''r'', routingPolicy = Single\<rparr> False,
           OpRegister \<lparr>callId = 2, route = ''r'', routingPolicy = First\<rparr> True]) ''r'' =
     Some [\<lparr>callId = 1, route = ''r'', routingPolicy = Single\<rparr>] \<and>
   map_option calls (registrationCallsTwoWay
     (run [OpRegister \<lparr>callId = 1, route = ''r'', routingPolicy = Single\<rparr> False,
           OpRegister \<lparr>callId = 2, route = ''r'', routingPolicy = First\<rparr> True]) ''r'') =
     Some [\<lparr>callId = 2, route = ''r'', routingPolicy = First\<rparr>] \<and>
   registrationCallsTwoWay
     (run [OpRegister \<lparr>callId = 1, route = ''r'', routingPolicy = Single\<rparr> False,
           OpRegister \<lparr>callId = 2, route = ''r'', routingPolicy = First\<rparr> True]) ''q'' = None \<and>
   registrationCallsOneWay (fst (handleRegister
     (run [OpRegister \<lparr>callId = 1, route = ''r'', routingPolicy = Single\<rparr> False,
           OpRegister \<lparr>callId = 2, route = ''r'', routingPolicy = First\<rparr> True])
     \<lparr>callId = 3, route = ''r'', routingPolicy = Single\<rparr> False)) ''r'' =
     Some [\<lparr>callId = 1, route = ''r'', routingPolicy = Single\<rparr>,
           \<lparr>callId = 3, route = ''r'', routingPolicy = Single\<rparr>] \<and>
   map_option calls (registrationCallsTwoWay (fst (handleRegister
     (run [OpRegister \<lparr>callId = 1, route = ''r'', routingPolicy = Single\<rparr> False,
           OpRegister \<lparr>callId = 2, route = ''r'', routingPolicy = First\<rparr> True])
     \<lparr>callId = 4, route = ''q'', routingPolicy = Last\<rparr> True)) ''q'') =
     Some [\<lparr>callId = 4, route = ''q'', routingPolicy = Last\<rparr>] \<and>
   registrationCallsOneWay (fst (deregisterCall
     (run [OpRegister \<lparr>callId = 1, route = ''r'', routingPolicy = Single\<rparr> False,
           OpRegister \<lparr>callId = 2, route = ''r'', routingPolicy = First\<rparr> True])
     \<lparr>callId = 1, route = ''r'', routingPolicy = Single\<rparr> False)) ''r'' = None \<and>
   map_option calls (registrationCallsTwoWay (fst (deregisterCall
     (run [OpRegister \<lparr>callId = 1, route = ''r'', routingPolicy = Single\<rparr> False,
           OpRegister \<lparr>callId = 2, route = ''r'', routingPolicy = First\<rparr> True])
     \<lparr>callId = 2, route = ''r'', routingPolicy = First\<rparr> True)) ''r'') = None"
proof -
  let ?p = "\<lparr>callId = 1, route = ''r'', routingPolicy = Single\<rparr>"
  let ?t = "\<lparr>callId = 2, route = ''r'', routingPolicy = First\<rparr>"
  let ?ops = "[OpRegister ?p False, OpRegister ?t True]"
  let ?g = "\<lparr>calls = [?t], requestId = 0, policy = First, currentCallIndex = 0\<rparr>"
  have h1: "registrationCallsOneWay (run ?ops) ''r'' = Some [?p]"
    by (simp add: routing_eval)
  have h2: "registrationCallsTwoWay (run ?ops) ''r'' = Some ?g"
    by (simp add: routing_eval)
  have h3: "registrationCallsTwoWay (run ?ops) ''q'' = None"
    by (simp add: routing_eval)
  note r = C6_table_entries [where ops = ?ops and r = "''r''"]
    and q = C6_table_entries [where ops = ?ops and r = "''q''"]
  have a: "registrationCallsOneWay (fst (handleRegister (run ?ops)
             \<lparr>callId = 3, route = ''r'', routingPolicy = Single\<rparr> False)) ''r'' =
           Some [?p, \<lparr>callId = 3, route = ''r'', routingPolicy = Single\<rparr>]"
    using r h1 by simp
  have b: "map_option calls (registrationCallsTwoWay (fst (handleRegister (run ?ops)
             \<lparr>callId = 4, route = ''q'', routingPolicy = Last\<rparr> True)) ''q'') =
           Some [\<lparr>callId = 4, route = ''q'', routingPolicy = Last\<rparr>]"
    using q h3 by simp
  have c: "registrationCallsOneWay (fst (deregisterCall (run ?ops) ?p False)) ''r'' = None"
  proof -
    have "route ?p = ''r'' \<and> registrationCallsOneWay (run ?ops) ''r'' = Some [?p] \<and> ?p \<in> set [?p]"
      using h1 by simp
    with r have "registrationCallsOneWay (fst (deregisterCall (run ?ops) ?p False)) ''r'' =
        (if remove1 ?p [?p] = [] then None else Some (remove1 ?p [?p]))"
      by blast
    then show ?thesis by simp
  qed
  have d: "map_option calls (registrationCallsTwoWay (fst (deregisterCall (run ?ops) ?t True)) ''r'') = None"
  proof -
    have "route ?t = ''r'' \<and> registrationCallsTwoWay (run ?ops) ''r'' = Some ?g \<and> ?t \<in> set (calls ?g)"
      using h2 by simp
    with r have "map_option calls (registrationCallsTwoWay (fst (deregisterCall (run ?ops) ?t True)) ''r'') =
        (if remove1 ?t (calls ?g) = [] then None else Some (remove1 ?t (calls ?g)))"
      by blast
    then show ?thesis by simp
  qed
  from h1 h2 h3 a b c d show ?thesis by simp
qed

text \<open>
  Claim C7 (allocation of request ids). A request dispatched on a route whose group
  exists is given the id \<open>nextRequestId\<close> of the counter of the group, which becomes the
  new counter and the key of the pending request, and is the id written to the chosen
  registration (the id is allocated also when the selector picks no registration). \<open>nextRequestId\<close> is the counter plus 1, or 1 when the counter is
  \<open>2^32 - 1\<close>, so every id lies between 1 and \<open>2^32 - 1\<close>. Between two requests on the
  route, no other call changes the counter as long as the group exists, so the next
  request is given the \<open>nextRequestId\<close> of the previous id. A new group starts with the
  counter 0, and in every state reached from the empty service the counter is at most
  \<open>2^32 - 1\<close>.
\<close>

theorem C7_request_id_allocation:
  assumes "registrationCallsTwoWay s r = Some g"
    and "reqRoute (request rc1) = r" and "reqRoute (request rc2) = r"
    and "\<forall>op \<in> set ops. \<not> requestsOn r op"
    and "groupKept (step s (OpRequest rc1 rnd1)) ops r"
  shows "map_option requestId (registrationCallsTwoWay (step s (OpRequest rc1 rnd1)) r) =
           Some (nextRequestId (requestId g)) \<and>
         map_option requestId (registrationCallsTwoWay
             (step (foldl step (step s (OpRequest rc1 rnd1)) ops) (OpRequest rc2 rnd2)) r) =
           Some (nextRequestId (nextRequestId (requestId g))) \<and>
         (\<exists>reg. pendingRequest (step s (OpRequest rc1 rnd1)) r (Some (nextRequestId (requestId g)))
                  = Some (rc1, reg)) \<and>
         (\<exists>reg. pendingRequest
                  (step (foldl step (step s (OpRequest rc1 rnd1)) ops) (OpRequest rc2 rnd2)) r
                  (Some (nextRequestId (nextRequestId (requestId g)))) = Some (rc2, reg)) \<and>
         (\<forall>c ev. snd (handleRequest s rc1 rnd1) = Inr [WriteRequest c ev] \<longrightarrow>
            reqRequestId ev = Some (nextRequestId (requestId g))) \<and>
         (\<forall>c ev. snd (handleRequest (foldl step (step s (OpRequest rc1 rnd1)) ops) rc2 rnd2) =
                    Inr [WriteRequest c ev] \<longrightarrow>
            reqRequestId ev = Some (nextRequestId (nextRequestId (requestId g)))) \<and>
         (\<forall>n. 1 \<le> nextRequestId n \<and> nextRequestId n \<le> 2 ^ 32 - 1 \<and>
              nextRequestId n = (if n < 2 ^ 32 - 1 then n + 1 else 1)) \<and>
         (\<forall>c. registrationCallsTwoWay s (route c) = None \<longrightarrow>
              map_option requestId
                (registrationCallsTwoWay (fst (registerCall s c True)) (route c)) = Some 0) \<and>
         (\<forall>ops0. s = run ops0 \<longrightarrow> requestId g \<le> 2 ^ 32 - 1)"
proof -
  let ?s1 = "step s (OpRequest rc1 rnd1)"
  let ?s2 = "foldl step ?s1 ops"
  let ?id1 = "nextRequestId (requestId g)"
  have g1: "registrationCallsTwoWay s (reqRoute (request rc1)) = Some g"
    using assms(1,2) by simp
  note a1 = handleRequest_allocates[OF g1, of rnd1, unfolded assms(2)]
  have c1: "map_option requestId (registrationCallsTwoWay ?s1 r) = Some ?id1"
    using a1 by simp
  have "map_option requestId (registrationCallsTwoWay ?s2 r) = Some ?id1"
    using foldl_keeps_counter[OF assms(5,4)] c1 by simp
  then obtain g2 where g2: "registrationCallsTwoWay ?s2 r = Some g2" "requestId g2 = ?id1"
    by auto
  have g2': "registrationCallsTwoWay ?s2 (reqRoute (request rc2)) = Some g2"
    using g2(1) assms(3) by simp
  note a2 = handleRequest_allocates[OF g2', of rnd2, unfolded assms(3) g2(2)]
  have rng: "\<forall>n. 1 \<le> nextRequestId n \<and> nextRequestId n \<le> 2 ^ 32 - 1 \<and>
              nextRequestId n = (if n < 2 ^ 32 - 1 then n + 1 else 1)"
    by (simp add: nextRequestId_def)
  have fresh: "\<forall>c. registrationCallsTwoWay s (route c) = None \<longrightarrow>
              map_option requestId
                (registrationCallsTwoWay (fst (registerCall s c True)) (route c)) = Some 0"
    by (simp add: registerCall_fresh_counter)
  have bound: "\<forall>ops0. s = run ops0 \<longrightarrow> requestId g \<le> 2 ^ 32 - 1"
    using assms(1) run_twoWay by (auto simp: groupOk_def)
  show ?thesis
    using a1 a2 rng fresh bound by simp
qed

text \<open>
  C7 on two requests with a registration, a response, a deregistration, a cancellation
  and a push between them (ids 1 and 2), and on two requests at the wrap (ids
  \<open>2^32 - 1\<close> and 1).
\<close>

theorem C7_request_id_allocation_witness:
  "map_option requestId (registrationCallsTwoWay
     (step (run [OpRegister \<lparr>callId = 1, route = ''r'', routingPolicy = First\<rparr> True])
        (OpRequest \<lparr>requestCallId = 7,
                    request = \<lparr>reqRoute = ''r'', reqRequestId = None, reqData = None\<rparr>\<rparr> 0))
     ''r'') = Some 1 \<and>
   map_option requestId (registrationCallsTwoWay
     (step (foldl step
        (step (run [OpRegister \<lparr>callId = 1, route = ''r'', routingPolicy = First\<rparr> True])
           (OpRequest \<lparr>requestCallId = 7,
                       request = \<lparr>reqRoute = ''r'', reqRequestId = None, reqData = None\<rparr>\<rparr> 0))
        [OpRegister \<lparr>callId = 2, route = ''r'', routingPolicy = First\<rparr> True,
         OpRespond \<lparr>resRoute = ''r'', resRequestId = Some 1, resData = None, resError = None\<rparr>,
         OpDeregister \<lparr>callId = 2, route = ''r'', routingPolicy = First\<rparr> True,
         OpCancelRequest 7,
         OpPush \<lparr>pushRoute = ''r'', pushData = None\<rparr>])
        (OpRequest \<lparr>requestCallId = 8,
                    request = \<lparr>reqRoute = ''r'', reqRequestId = None, reqData = None\<rparr>\<rparr> 0))
     ''r'') = Some 2 \<and>
   map_option requestId (registrationCallsTwoWay
     (step (newRoutingService\<lparr>registrationCallsTwoWay := Map.empty(''r'' \<mapsto>
              \<lparr>calls = [\<lparr>callId = 1, route = ''r'', routingPolicy = First\<rparr>],
               requestId = 4294967294, policy = First, currentCallIndex = 0\<rparr>)\<rparr>)
        (OpRequest \<lparr>requestCallId = 7,
                    request = \<lparr>reqRoute = ''r'', reqRequestId = None, reqData = None\<rparr>\<rparr> 0))
     ''r'') = Some 4294967295 \<and>
   map_option requestId (registrationCallsTwoWay
     (step (foldl step
        (step (newRoutingService\<lparr>registrationCallsTwoWay := Map.empty(''r'' \<mapsto>
                 \<lparr>calls = [\<lparr>callId = 1, route = ''r'', routingPolicy = First\<rparr>],
                  requestId = 4294967294, policy = First, currentCallIndex = 0\<rparr>)\<rparr>)
           (OpRequest \<lparr>requestCallId = 7,
                       request = \<lparr>reqRoute = ''r'', reqRequestId = None, reqData = None\<rparr>\<rparr> 0))
        [])
        (OpRequest \<lparr>requestCallId = 8,
                    request = \<lparr>reqRoute = ''r'', reqRequestId = None, reqData = None\<rparr>\<rparr> 0))
     ''r'') = Some 1"
proof -
  let ?a = "\<lparr>callId = 1, route = ''r'', routingPolicy = First\<rparr>"
  let ?b = "\<lparr>callId = 2, route = ''r'', routingPolicy = First\<rparr>"
  let ?q1 = "\<lparr>requestCallId = 7,
              request = \<lparr>reqRoute = ''r'', reqRequestId = None, reqData = None\<rparr>\<rparr>"
  let ?q2 = "\<lparr>requestCallId = 8,
              request = \<lparr>reqRoute = ''r'', reqRequestId = None, reqData = None\<rparr>\<rparr>"
  let ?ops = "[OpRegister ?b True,
         OpRespond \<lparr>resRoute = ''r'', resRequestId = Some 1, resData = None, resError = None\<rparr>,
         OpDeregister ?b True, OpCancelRequest 7,
         OpPush \<lparr>pushRoute = ''r'', pushData = None\<rparr>]"
  let ?s = "run [OpRegister ?a True]"
  let ?g = "\<lparr>calls = [?a], requestId = 0, policy = First, currentCallIndex = 0\<rparr>"
  let ?gw = "\<lparr>calls = [?a], requestId = 4294967294, policy = First, currentCallIndex = 0\<rparr>"
  let ?w = "newRoutingService\<lparr>registrationCallsTwoWay := Map.empty(''r'' \<mapsto> ?gw)\<rparr>"
  have h1: "registrationCallsTwoWay ?s ''r'' = Some ?g"
    by (simp add: routing_eval)
  have h2: "reqRoute (request ?q1) = ''r''" and h3: "reqRoute (request ?q2) = ''r''"
    by simp_all
  have h4: "\<forall>op \<in> set ?ops. \<not> requestsOn ''r'' op"
    by simp
  have h5: "groupKept (step ?s (OpRequest ?q1 0)) ?ops ''r''"
    by (simp add: routing_eval)
  have w1: "registrationCallsTwoWay ?w ''r'' = Some ?gw"
    by (simp add: routing_eval)
  have w4: "\<forall>op \<in> set []. \<not> requestsOn ''r'' op"
    by simp
  have w5: "groupKept (step ?w (OpRequest ?q1 0)) [] ''r''"
    by (simp add: routing_eval)
  have n: "nextRequestId (requestId ?g) = 1"
    "nextRequestId 1 = 2"
    "nextRequestId (requestId ?gw) = 4294967295"
    "nextRequestId 4294967295 = 1"
    by (simp_all add: nextRequestId_def)
  note t = C7_request_id_allocation [OF h1 h2 h3 h4 h5, of 0]
  note u = C7_request_id_allocation [OF w1 h2 h3 w4 w5, of 0]
  note a1 = t [THEN conjunct1, unfolded n]
  note a2 = t [THEN conjunct2, THEN conjunct1, unfolded n]
  note b1 = u [THEN conjunct1, unfolded n]
  note b2 = u [THEN conjunct2, THEN conjunct1, unfolded n]
  show ?thesis
    by (intro conjI) (fact a1, fact a2, fact b1, fact b2)
qed

text \<open>
  Claim C10 (Respond consumes the pending request), with the second Respond bounded as
  the code has it. A Respond that finds a pending request removes it, also when the
  request call is cancelled and the reply is \<open>routingCount = 0\<close>; a second Respond with
  the same route and request id is answered with \<open>INVALID_ARGUMENT\<close> right after the
  first and after any further calls, as long as none of them is a request on the route
  that is given the same request id again; and when the pending request was the only
  one of its route, the entry of the route is removed from the table.
\<close>

theorem C10_respond_consumes:
  "(\<forall>rq reg. pendingRequest s (resRoute e) (resRequestId e) = Some (rq, reg) \<longrightarrow>
      pendingRequest (fst (handleResponse s e)) (resRoute e) (resRequestId e) = None \<and>
      (requestCallId rq \<in> cancelled s \<longrightarrow>
         snd (handleResponse s e) = ([], Inr \<lparr>routingCount = 0\<rparr>))) \<and>
   (\<forall>ops'. (\<forall>k. resRequestId e = Some k \<longrightarrow>
               neverAllocates (fst (handleResponse s e)) ops' (resRoute e) k) \<longrightarrow>
      (\<exists>d. snd (handleResponse (foldl step (fst (handleResponse s e)) ops') e) =
             ([], Inl (INVALID_ARGUMENT, d)))) \<and>
   (\<forall>k item. requestCalls s (resRoute e) = Some [(k, item)] \<and> resRequestId e = Some k \<longrightarrow>
      requestCalls (fst (handleResponse s e)) (resRoute e) = None)"
proof (intro conjI)
  show "\<forall>rq reg. pendingRequest s (resRoute e) (resRequestId e) = Some (rq, reg) \<longrightarrow>
      pendingRequest (fst (handleResponse s e)) (resRoute e) (resRequestId e) = None \<and>
      (requestCallId rq \<in> cancelled s \<longrightarrow>
         snd (handleResponse s e) = ([], Inr \<lparr>routingCount = 0\<rparr>))"
    by (simp add: handleResponse_alt removeRequestCall_gone)
  have gone: "pendingRequest (fst (handleResponse s e)) (resRoute e) (resRequestId e) = None"
    by (simp add: handleResponse_alt removeRequestCall_gone)
  show "\<forall>ops'. (\<forall>k. resRequestId e = Some k \<longrightarrow>
               neverAllocates (fst (handleResponse s e)) ops' (resRoute e) k) \<longrightarrow>
      (\<exists>d. snd (handleResponse (foldl step (fst (handleResponse s e)) ops') e) =
             ([], Inl (INVALID_ARGUMENT, d)))"
  proof (intro allI impI)
    fix ops'
    assume na: "\<forall>k. resRequestId e = Some k \<longrightarrow>
               neverAllocates (fst (handleResponse s e)) ops' (resRoute e) k"
    have "pendingRequest (foldl step (fst (handleResponse s e)) ops') (resRoute e) (resRequestId e)
            = None"
    proof (cases "resRequestId e")
      case None
      then show ?thesis by (simp add: pendingRequest_def split: option.splits)
    next
      case (Some k)
      then show ?thesis using foldl_keeps_absent[of "fst (handleResponse s e)" "resRoute e" k ops']
          gone na by simp
    qed
    then show "\<exists>d. snd (handleResponse (foldl step (fst (handleResponse s e)) ops') e) =
             ([], Inl (INVALID_ARGUMENT, d))"
      by (simp add: respond_absent)
  qed
  show "\<forall>k item. requestCalls s (resRoute e) = Some [(k, item)] \<and> resRequestId e = Some k \<longrightarrow>
      requestCalls (fst (handleResponse s e)) (resRoute e) = None"
    by (simp add: handleResponse_alt removeRequestCall_def)
qed

text \<open>C10 on a state whose only pending request has a cancelled request call, the second
  Respond coming after a further registration on the route.\<close>

theorem C10_respond_consumes_witness:
  "pendingRequest
     (run [OpRegister \<lparr>callId = 1, route = ''r'', routingPolicy = Single\<rparr> True,
           OpRequest \<lparr>requestCallId = 7, request = \<lparr>reqRoute = ''r'', reqRequestId = None, reqData = None\<rparr>\<rparr> 0,
           OpCancelRequest 7])
     ''r'' (Some 1) =
     Some (\<lparr>requestCallId = 7, request = \<lparr>reqRoute = ''r'', reqRequestId = None, reqData = None\<rparr>\<rparr>,
           Some \<lparr>callId = 1, route = ''r'', routingPolicy = Single\<rparr>) \<and>
   7 \<in> cancelled
     (run [OpRegister \<lparr>callId = 1, route = ''r'', routingPolicy = Single\<rparr> True,
           OpRequest \<lparr>requestCallId = 7, request = \<lparr>reqRoute = ''r'', reqRequestId = None, reqData = None\<rparr>\<rparr> 0,
           OpCancelRequest 7]) \<and>
   snd (handleResponse
     (run [OpRegister \<lparr>callId = 1, route = ''r'', routingPolicy = Single\<rparr> True,
           OpRequest \<lparr>requestCallId = 7, request = \<lparr>reqRoute = ''r'', reqRequestId = None, reqData = None\<rparr>\<rparr> 0,
           OpCancelRequest 7])
     \<lparr>resRoute = ''r'', resRequestId = Some 1, resData = None, resError = None\<rparr>) =
     ([], Inr \<lparr>routingCount = 0\<rparr>) \<and>
   requestCalls (fst (handleResponse
     (run [OpRegister \<lparr>callId = 1, route = ''r'', routingPolicy = Single\<rparr> True,
           OpRequest \<lparr>requestCallId = 7, request = \<lparr>reqRoute = ''r'', reqRequestId = None, reqData = None\<rparr>\<rparr> 0,
           OpCancelRequest 7])
     \<lparr>resRoute = ''r'', resRequestId = Some 1, resData = None, resError = None\<rparr>)) ''r'' = None \<and>
   neverAllocates (fst (handleResponse
     (run [OpRegister \<lparr>callId = 1, route = ''r'', routingPolicy = Single\<rparr> True,
           OpRequest \<lparr>requestCallId = 7, request = \<lparr>reqRoute = ''r'', reqRequestId = None, reqData = None\<rparr>\<rparr> 0,
           OpCancelRequest 7])
     \<lparr>resRoute = ''r'', resRequestId = Some 1, resData = None, resError = None\<rparr>))
     [OpRegister \<lparr>callId = 2, route = ''r'', routingPolicy = Single\<rparr> True] ''r'' 1 \<and>
   (\<exists>d. snd (handleResponse (foldl step (fst (handleResponse
     (run [OpRegister \<lparr>callId = 1, route = ''r'', routingPolicy = Single\<rparr> True,
           OpRequest \<lparr>requestCallId = 7, request = \<lparr>reqRoute = ''r'', reqRequestId = None, reqData = None\<rparr>\<rparr> 0,
           OpCancelRequest 7])
     \<lparr>resRoute = ''r'', resRequestId = Some 1, resData = None, resError = None\<rparr>))
     [OpRegister \<lparr>callId = 2, route = ''r'', routingPolicy = Single\<rparr> True])
     \<lparr>resRoute = ''r'', resRequestId = Some 1, resData = None, resError = None\<rparr>) =
       ([], Inl (INVALID_ARGUMENT, d)))"
proof -
  let ?a = "\<lparr>callId = 1, route = ''r'', routingPolicy = Single\<rparr>"
  let ?a2 = "\<lparr>callId = 2, route = ''r'', routingPolicy = Single\<rparr>"
  let ?q = "\<lparr>requestCallId = 7, request = \<lparr>reqRoute = ''r'', reqRequestId = None, reqData = None\<rparr>\<rparr>"
  let ?e = "\<lparr>resRoute = ''r'', resRequestId = Some 1, resData = None, resError = None\<rparr>"
  let ?s = "run [OpRegister ?a True, OpRequest ?q 0, OpCancelRequest 7]"
  let ?s1 = "fst (handleResponse ?s ?e)"
  have p: "pendingRequest ?s (resRoute ?e) (resRequestId ?e) = Some (?q, Some ?a)"
    by (simp add: routing_eval)
  have c: "requestCallId ?q \<in> cancelled ?s"
    by (simp add: routing_eval)
  have l: "requestCalls ?s (resRoute ?e) = Some [(1, (?q, Some ?a))] \<and> resRequestId ?e = Some 1"
    by (simp add: routing_eval)
  have na: "neverAllocates ?s1 [OpRegister ?a2 True] ''r'' 1"
    by simp
  then have na': "\<forall>k. resRequestId ?e = Some k \<longrightarrow>
                   neverAllocates ?s1 [OpRegister ?a2 True] (resRoute ?e) k"
    by simp
  note t = C10_respond_consumes [of ?s ?e]
  from t p c have r0: "snd (handleResponse ?s ?e) = ([], Inr \<lparr>routingCount = 0\<rparr>)"
    by blast
  from t na' have r2: "\<exists>d. snd (handleResponse (foldl step ?s1 [OpRegister ?a2 True]) ?e) =
       ([], Inl (INVALID_ARGUMENT, d))"
    by blast
  from t l have r3: "requestCalls ?s1 (resRoute ?e) = None"
    by blast
  from p c r0 r2 r3 na show ?thesis by simp
qed

text \<open>
  Claim C10 as stated fails for a second Respond that comes later: after the first
  Respond has consumed the pending request, the registration leaves, a new registration
  creates a group whose counter starts at 0 again, and the next request on the route
  is given the id 1 once more. The second Respond for the route and id 1 is then
  delivered to the new requester with \<open>routingCount = 1\<close>.
\<close>

theorem C10_second_respond_counterexample:
  "snd (handleResponse
     (run [OpRegister \<lparr>callId = 1, route = ''r'', routingPolicy = Single\<rparr> True,
           OpRequest \<lparr>requestCallId = 7, request = \<lparr>reqRoute = ''r'', reqRequestId = None, reqData = None\<rparr>\<rparr> 0])
     \<lparr>resRoute = ''r'', resRequestId = Some 1, resData = None, resError = None\<rparr>) =
     ([RequestCallback \<lparr>requestCallId = 7, request = \<lparr>reqRoute = ''r'', reqRequestId = None, reqData = None\<rparr>\<rparr>
         (Inr \<lparr>resRoute = ''r'', resRequestId = None, resData = None, resError = None\<rparr>)],
      Inr \<lparr>routingCount = 1\<rparr>) \<and>
   snd (handleResponse (foldl step (fst (handleResponse
     (run [OpRegister \<lparr>callId = 1, route = ''r'', routingPolicy = Single\<rparr> True,
           OpRequest \<lparr>requestCallId = 7, request = \<lparr>reqRoute = ''r'', reqRequestId = None, reqData = None\<rparr>\<rparr> 0])
     \<lparr>resRoute = ''r'', resRequestId = Some 1, resData = None, resError = None\<rparr>))
     [OpDeregister \<lparr>callId = 1, route = ''r'', routingPolicy = Single\<rparr> True,
      OpRegister \<lparr>callId = 2, route = ''r'', routingPolicy = Single\<rparr> True,
      OpRequest \<lparr>requestCallId = 8, request = \<lparr>reqRoute = ''r'', reqRequestId = None, reqData = None\<rparr>\<rparr> 0])
     \<lparr>resRoute = ''r'', resRequestId = Some 1, resData = None, resError = None\<rparr>) =
     ([RequestCallback \<lparr>requestCallId = 8, request = \<lparr>reqRoute = ''r'', reqRequestId = None, reqData = None\<rparr>\<rparr>
         (Inr \<lparr>resRoute = ''r'', resRequestId = None, resData = None, resError = None\<rparr>)],
      Inr \<lparr>routingCount = 1\<rparr>)"
  by (simp add: routing_eval)

section \<open>Communication service: the claim\<close>

text \<open>
  Claim C9 (PublishComplete is idempotent). The call replies \<open>EventAck\<close>, leaves no
  response callback under the correlation id and touches no other entry; a second call
  with the same correlation id replies \<open>EventAck\<close> again and leaves the table as the first
  call left it.
\<close>

theorem C9_publishComplete_idempotent:
  "snd (publishComplete s cid) = Inr EventAck \<and>
   cid \<notin> dom (observedResponseCallbacks (fst (publishComplete s cid))) \<and>
   observedResponseCallbacks (fst (publishComplete s cid)) |` (- {cid}) =
     observedResponseCallbacks s |` (- {cid}) \<and>
   publishComplete (fst (publishComplete s cid)) cid = (fst (publishComplete s cid), Inr EventAck)"
  by (auto simp: publishComplete_def restrict_map_def fun_eq_iff)

section \<open>Consensus service: the claim\<close>

lemma propose_null:
  "propose ctrls outcome (input\<lparr>inputValue := None\<rparr>) =
   propose ctrls outcome (input\<lparr>inputValue := Some [(''nullValue'', JNumber 0)]\<rparr>)"
  by (simp add: propose_def Let_def split: option.splits)

lemma propose_empty:
  "inputRef input = Some nid \<Longrightarrow> ctrls nid = Some st \<Longrightarrow> inputValue input = Some [] \<Longrightarrow>
   propose ctrls outcome input = (ctrls, Inl Internal)"
  by (simp add: propose_def Let_def)

lemma propose_fields:
  "inputRef input = Some nid \<Longrightarrow> ctrls nid = Some st \<Longrightarrow> inputValue input = Some v \<Longrightarrow> v \<noteq> [] \<Longrightarrow>
   propose ctrls Committed input = (ctrls(nid \<mapsto> processInput st input), Inr (processInput st input))"
  by (simp add: propose_def Let_def raftPropose_def)

lemma propose_unset_put:
  "inputRef input = Some nid \<Longrightarrow> ctrls nid = Some st \<Longrightarrow> inputValue input = None \<Longrightarrow>
   inputOp input = Put \<Longrightarrow>
   propose ctrls Committed input =
     (ctrls(nid \<mapsto> AList.update (inputKey input) (Some [(''nullValue'', JNumber 0)]) st),
      Inr (AList.update (inputKey input) (Some [(''nullValue'', JNumber 0)]) st))"
  by (simp add: propose_def Let_def raftPropose_def processInput_def)

lemmas consensus_eval =
  propose_handler_def failFastIfOffline_def propose_def raftPropose_def processInput_def Let_def

text \<open>
  Claim C8 (value of a proposal), as the code has it. For a Propose call on a created
  node that is not failed fast because the agent is offline: an unset value is handled
  as the value \<open>{nullValue: 0}\<close>, so that a committed \<open>Put\<close> stores \<open>{nullValue: 0}\<close> under
  the key; a value that is an object without any field is rejected with \<open>INTERNAL\<close>; and
  a value with one or more fields is handed to the Raft library, whose committed state
  is the reply.
\<close>

theorem C8_propose_value:
  assumes "\<not> failFastIfOffline online failFast"
    and "inputRef input = Some nid" and "ctrls nid = Some st"
  shows "propose_handler online failFast ctrls outcome (input\<lparr>inputValue := None\<rparr>) =
           propose_handler online failFast ctrls outcome
             (input\<lparr>inputValue := Some [(''nullValue'', JNumber 0)]\<rparr>) \<and>
         (inputValue input = None \<and> inputOp input = Put \<and> outcome = Committed \<longrightarrow>
            (\<exists>st'. propose_handler online failFast ctrls outcome input =
                     (ctrls(nid \<mapsto> st'), Some (Inr st')) \<and>
                   map_of st' (inputKey input) = Some (Some [(''nullValue'', JNumber 0)]))) \<and>
         (inputValue input = Some [] \<longrightarrow>
            propose_handler online failFast ctrls outcome input =
              (ctrls, Some (Inl (INTERNAL, ''Serialization format of input value may be invalid'')))) \<and>
         (\<forall>v. inputValue input = Some v \<and> v \<noteq> [] \<and> outcome = Committed \<longrightarrow>
            propose_handler online failFast ctrls outcome input =
              (ctrls(nid \<mapsto> processInput st input), Some (Inr (processInput st input))))"
proof (intro conjI impI allI)
  show "propose_handler online failFast ctrls outcome (input\<lparr>inputValue := None\<rparr>) =
           propose_handler online failFast ctrls outcome
             (input\<lparr>inputValue := Some [(''nullValue'', JNumber 0)]\<rparr>)"
    by (simp add: propose_handler_def propose_null)
  show "\<exists>st'. propose_handler online failFast ctrls outcome input =
                (ctrls(nid \<mapsto> st'), Some (Inr st')) \<and>
              map_of st' (inputKey input) = Some (Some [(''nullValue'', JNumber 0)])"
    if "inputValue input = None \<and> inputOp input = Put \<and> outcome = Committed"
    using that assms by (simp add: propose_handler_def propose_unset_put update_Some_unfold)
  show "propose_handler online failFast ctrls outcome input =
              (ctrls, Some (Inl (INTERNAL, ''Serialization format of input value may be invalid'')))"
    if "inputValue input = Some []"
    using that assms by (simp add: propose_handler_def propose_empty)
  show "propose_handler online failFast ctrls outcome input =
              (ctrls(nid \<mapsto> processInput st input), Some (Inr (processInput st input)))"
    if "inputValue input = Some v \<and> v \<noteq> [] \<and> outcome = Committed" for v
    using that assms by (simp add: propose_handler_def propose_fields)
qed

text \<open>C8 on a created node: an unset value, an empty object and a number value.\<close>

theorem C8_propose_value_witness:
  "\<not> failFastIfOffline True ''true'' \<and>
   snd (propose_handler True ''true'' (Map.empty(''n'' \<mapsto> [])) Committed
          \<lparr>inputRef = Some ''n'', inputOp = Put, inputKey = ''foo'', inputValue = None\<rparr>) =
     Some (Inr [(''foo'', Some [(''nullValue'', JNumber 0)])]) \<and>
   snd (propose_handler True ''true'' (Map.empty(''n'' \<mapsto> [])) Committed
          \<lparr>inputRef = Some ''n'', inputOp = Put, inputKey = ''foo'', inputValue = Some []\<rparr>) =
     Some (Inl (INTERNAL, ''Serialization format of input value may be invalid'')) \<and>
   snd (propose_handler True ''true'' (Map.empty(''n'' \<mapsto> [])) Committed
          \<lparr>inputRef = Some ''n'', inputOp = Put, inputKey = ''foo'',
           inputValue = Some [(''numberValue'', JNumber 42)]\<rparr>) =
     Some (Inr [(''foo'', Some [(''numberValue'', JNumber 42)])])"
  using C8_propose_value [of True "''true''"
          "\<lparr>inputRef = Some ''n'', inputOp = Put, inputKey = ''foo'', inputValue = None\<rparr>"
          "''n''" "Map.empty(''n'' \<mapsto> [])" "[]" Committed]
        C8_propose_value [of True "''true''"
          "\<lparr>inputRef = Some ''n'', inputOp = Put, inputKey = ''foo'', inputValue = Some []\<rparr>"
          "''n''" "Map.empty(''n'' \<mapsto> [])" "[]" Committed]
        C8_propose_value [of True "''true''"
          "\<lparr>inputRef = Some ''n'', inputOp = Put, inputKey = ''foo'',
            inputValue = Some [(''numberValue'', JNumber 42)]\<rparr>"
          "''n''" "Map.empty(''n'' \<mapsto> [])" "[]" Committed]
  by (simp add: consensus_eval)

text \<open>
  Claim C8 as stated fails in two ways. A value with two fields set, which is not a
  legal tagged value, is not rejected: the controller only looks for an object without
  keys. And when the agent is offline and fail-fast is on, a proposal with an empty
  value is answered with \<open>UNAVAILABLE\<close>, before the value is looked at.
\<close>

theorem C8_counterexample:
  "snd (propose_handler True ''true'' (Map.empty(''n'' \<mapsto> [])) Committed
          \<lparr>inputRef = Some ''n'', inputOp = Put, inputKey = ''foo'',
           inputValue = Some [(''numberValue'', JNumber 42), (''stringValue'', JString ''42'')]\<rparr>) =
     Some (Inr [(''foo'', Some [(''numberValue'', JNumber 42), (''stringValue'', JString ''42'')])]) \<and>
   snd (propose_handler False ''true'' (Map.empty(''n'' \<mapsto> [])) Committed
          \<lparr>inputRef = Some ''n'', inputOp = Put, inputKey = ''foo'', inputValue = Some []\<rparr>) =
     Some (Inl (UNAVAILABLE, ''Coaty agent is offline''))"
  by (simp add: consensus_eval)

end
